theory Spec2Isabelle
  imports Main "HOL-Library.Word" "HOL-Library.Sublist"
begin

section \<open>Data model of \<open>ChessGame\<close> (app.js)\<close>

text \<open>
  The rules engine lives in the class \<open>ChessGame\<close> of \<open>app.js\<close>. Its methods read and
  write the fields of \<open>this\<close>; here every method takes the object as its last argument
  and returns the updated object next to its result.

  Players are the strings \<open>'white'\<close> and \<open>'black'\<close>; pieces are one-character strings
  (upper case for White), a board cell is \<open>null\<close> or a piece; squares are objects
  \<open>{rank, file}\<close> of numbers, rank 0 being the eighth rank and file 0 the a-file.
\<close>

datatype color = White | Black

record square =
  sqrank :: int
  sqfile :: int

type_synonym board = "char option list list"

text \<open>
  Numbers are modelled as integers. The two counters of the position can also hold NaN
  (\<open>parseInt\<close> of a field that is no number), which is \<open>None\<close>.
\<close>

type_synonym jsnum = "int option"

record castling =
  right_K :: bool
  right_Q :: bool
  right_k :: bool
  right_q :: bool

datatype end_reason = Checkmate | Stalemate | MoveLimitReached | Resigned color

datatype winner = WhiteWins | BlackWins | Draw

record game_result =
  endReason :: end_reason
  gameWinner :: winner
  finalScore :: "int \<times> int"
  totalMoves :: int

record ChessGame =
  board :: board
  currentFEN :: string
  currentPlayer :: color
  castlingRights :: castling
  enPassantTarget :: string
  halfmoveClock :: jsnum
  fullmoveNumber :: jsnum
  moveCountWhite :: int
  moveCountBlack :: int
  maxMoves :: int
  scoreWhite :: int
  scoreBlack :: int
  gameActive :: bool
  gameResult :: "game_result option"
  currentPhase :: int

text \<open>The argument of \<open>applyMoveToState\<close>.\<close>

record move =
  from_sq :: square
  to_sq :: square
  mpiece :: "char option"
  capturedPiece :: "char option"
  promotion :: "char option"
  isEnPassant :: bool
  isCastling :: bool

subsection \<open>Board access\<close>

text \<open>
  \<open>this.board[r][f]\<close>. Inside the row range the model is JavaScript's: a column past the
  end of a row reads \<open>undefined\<close> (falsy, here \<open>None\<close>), a write past the end extends the
  row with holes. Outside the row range JavaScript throws a TypeError; the model reads
  \<open>None\<close> and writes nothing there, and every theorem below is stated for squares on the
  board, where this never happens.
\<close>

definition cell :: "board \<Rightarrow> int \<Rightarrow> int \<Rightarrow> char option" where
  "cell b r f =
     (if 0 \<le> r \<and> r < int (length b) \<and> 0 \<le> f \<and> f < int (length (b ! nat r))
      then b ! nat r ! nat f else None)"

definition jsSet :: "'a option list \<Rightarrow> nat \<Rightarrow> 'a option \<Rightarrow> 'a option list" where
  "jsSet xs i v =
     (if i < length xs then xs[i := v]
      else xs @ replicate (i - length xs) None @ [v])"

definition setCell :: "board \<Rightarrow> int \<Rightarrow> int \<Rightarrow> char option \<Rightarrow> board" where
  "setCell b r f v =
     (if 0 \<le> r \<and> r < int (length b) \<and> 0 \<le> f
      then b[nat r := jsSet (b ! nat r) (nat f) v] else b)"

definition createEmptyBoard :: board where
  "createEmptyBoard = replicate 8 (replicate 8 None)"

definition onBoard :: "square \<Rightarrow> bool" where
  "onBoard s = (0 \<le> sqrank s \<and> sqrank s < 8 \<and> 0 \<le> sqfile s \<and> sqfile s < 8)"

definition wfBoard :: "board \<Rightarrow> bool" where
  "wfBoard b = (length b = 8 \<and> list_all (\<lambda>row. length row = 8) b)"

subsection \<open>Characters\<close>

text \<open>
  \<open>toLowerCase\<close> and \<open>toUpperCase\<close> on a one-character string, for the ASCII letters
  (the only characters whose case the engine's comparisons can see).
\<close>

definition toLowerCase :: "char \<Rightarrow> char" where
  "toLowerCase c =
     (let n = (of_char c :: nat) in if 65 \<le> n \<and> n \<le> 90 then char_of (n + 32) else c)"

definition toUpperCase :: "char \<Rightarrow> char" where
  "toUpperCase c =
     (let n = (of_char c :: nat) in if 97 \<le> n \<and> n \<le> 122 then char_of (n - 32) else c)"

text \<open>\<open>/\d/.test(char)\<close> and \<open>parseInt(char, 10)\<close> on a one-character string.\<close>

definition isDigit :: "char \<Rightarrow> bool" where
  "isDigit c = (c \<in> set ''0123456789'')"

definition digitVal :: "char \<Rightarrow> nat" where
  "digitVal c = (of_char c :: nat) - 48"

definition digitChar :: "nat \<Rightarrow> char" where
  "digitChar d = ''0123456789'' ! d"

text \<open>Number to string, for the non-negative and negative integers.\<close>

fun digitsOf :: "nat \<Rightarrow> string" where
  "digitsOf n = (if n < 10 then [digitChar n] else digitsOf (n div 10) @ [digitChar (n mod 10)])"

declare digitsOf.simps [simp del]

definition numToString :: "int \<Rightarrow> string" where
  "numToString i = (if i < 0 then CHR ''-'' # digitsOf (nat (- i)) else digitsOf (nat i))"

text \<open>\<open>/[PRNBQK]/.test(piece)\<close> and \<open>/[prnbqk]/.test(piece)\<close>.\<close>

definition isWhitePiece :: "char \<Rightarrow> bool" where
  "isWhitePiece p = (p \<in> set ''PRNBQK'')"

definition isBlackPiece :: "char \<Rightarrow> bool" where
  "isBlackPiece p = (p \<in> set ''prnbqk'')"

text \<open>\<open>const color = /[PRNBQK]/.test(piece) ? 'white' : 'black'\<close>.\<close>

definition colorOf :: "char \<Rightarrow> color" where
  "colorOf p = (if isWhitePiece p then White else Black)"

definition opponent :: "color \<Rightarrow> color" where
  "opponent c = (if c = White then Black else White)"

definition isPieceOwnedByPlayer :: "char \<Rightarrow> color \<Rightarrow> bool" where
  "isPieceOwnedByPlayer p player = (if player = White then isWhitePiece p else isBlackPiece p)"

definition isSameColor :: "char \<Rightarrow> char \<Rightarrow> bool" where
  "isSameColor p1 p2 =
     ((isWhitePiece p1 \<and> isWhitePiece p2) \<or> (isBlackPiece p1 \<and> isBlackPiece p2))"

subsection \<open>Square names\<close>

text \<open>
  \<open>algebraicToCoords\<close>: \<open>file = charCodeAt(0) - 97\<close>, \<open>rank = 8 - parseInt(algebraic[1])\<close>.
  When the second character is missing or no digit, \<open>parseInt\<close> is NaN; the only use of
  the result compares it with a square of the board, which NaN never equals, so the model
  returns \<open>None\<close> there.
\<close>

definition algebraicToCoords :: "string \<Rightarrow> square option" where
  "algebraicToCoords a =
     (case a of
        c0 # c1 # _ \<Rightarrow>
          if isDigit c1
          then Some \<lparr>sqrank = 8 - int (digitVal c1), sqfile = (of_char c0 :: int) - 97\<rparr>
          else None
      | _ \<Rightarrow> None)"

definition coordsToAlgebraic :: "square \<Rightarrow> string" where
  "coordsToAlgebraic coords = char_of (97 + sqfile coords) # numToString (8 - sqrank coords)"

section \<open>FEN encoding: \<open>boardToPlacement\<close> and \<open>syncFENFromState\<close>\<close>

text \<open>The loop over one row, with its two variables \<open>emptyCount\<close> and \<open>fenRow\<close>.\<close>

fun rowToFen :: "char option list \<Rightarrow> nat \<Rightarrow> string \<Rightarrow> string" where
  "rowToFen [] emptyCount fenRow =
     (if emptyCount > 0 then fenRow @ digitsOf emptyCount else fenRow)"
| "rowToFen (None # ps) emptyCount fenRow = rowToFen ps (emptyCount + 1) fenRow"
| "rowToFen (Some p # ps) emptyCount fenRow =
     rowToFen ps 0 ((if emptyCount > 0 then fenRow @ digitsOf emptyCount else fenRow) @ [p])"

fun joinWith :: "char \<Rightarrow> string list \<Rightarrow> string" where
  "joinWith sep [] = []"
| "joinWith sep [x] = x"
| "joinWith sep (x # y # ys) = x @ sep # joinWith sep (y # ys)"

definition boardToPlacement :: "board \<Rightarrow> string" where
  "boardToPlacement b = joinWith (CHR ''/'') (map (\<lambda>row. rowToFen row 0 []) b)"

text \<open>\<open>x | 0\<close>: conversion to a signed 32-bit integer; NaN becomes 0.\<close>

definition toInt32 :: "jsnum \<Rightarrow> int" where
  "toInt32 x = (case x of None \<Rightarrow> 0 | Some n \<Rightarrow> sint (word_of_int n :: 32 word))"

definition castlingField :: "castling \<Rightarrow> string" where
  "castlingField cr =
     (let c = (if right_K cr then ''K'' else []) @ (if right_Q cr then ''Q'' else [])
            @ (if right_k cr then ''k'' else []) @ (if right_q cr then ''q'' else [])
      in if c = [] then ''-'' else c)"

definition syncFENFromState :: "ChessGame \<Rightarrow> ChessGame" where
  "syncFENFromState g =
     (let placement = boardToPlacement (board g);
          side = (if currentPlayer g = White then ''w'' else ''b'');
          c = castlingField (castlingRights g);
          ep = (if enPassantTarget g = [] then ''-'' else enPassantTarget g);
          half = max 0 (toInt32 (halfmoveClock g));
          full = max 1 (toInt32 (fullmoveNumber g))
      in g\<lparr>currentFEN := placement @ '' '' @ side @ '' '' @ c @ '' '' @ ep @ '' ''
                          @ numToString half @ '' '' @ numToString full\<rparr>)"

section \<open>The move applier \<open>applyMoveToState\<close>\<close>

text \<open>The local function \<open>updateCR(p, r, f)\<close>, acting on \<open>this.castlingRights\<close>.\<close>

definition updateCR :: "char option \<Rightarrow> int \<Rightarrow> int \<Rightarrow> castling \<Rightarrow> castling" where
  "updateCR p r f cr =
     (case p of
        None \<Rightarrow> cr
      | Some c \<Rightarrow>
          let cr1 = (if c = CHR ''K'' then cr\<lparr>right_K := False, right_Q := False\<rparr> else cr);
              cr2 = (if c = CHR ''k'' then cr1\<lparr>right_k := False, right_q := False\<rparr> else cr1);
              cr3 = (if c = CHR ''R'' \<and> r = 7 \<and> f = 0 then cr2\<lparr>right_Q := False\<rparr> else cr2);
              cr4 = (if c = CHR ''R'' \<and> r = 7 \<and> f = 7 then cr3\<lparr>right_K := False\<rparr> else cr3);
              cr5 = (if c = CHR ''r'' \<and> r = 0 \<and> f = 0 then cr4\<lparr>right_q := False\<rparr> else cr4)
          in (if c = CHR ''r'' \<and> r = 0 \<and> f = 7 then cr5\<lparr>right_k := False\<rparr> else cr5))"

text \<open>\<open>this.pieceValues[victim] || 0\<close>.\<close>

definition pieceValues :: "char \<Rightarrow> int" where
  "pieceValues v =
     (if v = CHR ''p'' \<or> v = CHR ''P'' then 1
      else if v = CHR ''r'' \<or> v = CHR ''R'' then 5
      else if v = CHR ''n'' \<or> v = CHR ''N'' \<or> v = CHR ''b'' \<or> v = CHR ''B'' then 3
      else if v = CHR ''q'' \<or> v = CHR ''Q'' then 9
      else 0)"

definition updateScoreOnCapture :: "char \<Rightarrow> char option \<Rightarrow> ChessGame \<Rightarrow> ChessGame" where
  "updateScoreOnCapture attacker victim g =
     (case victim of
        None \<Rightarrow> g
      | Some v \<Rightarrow>
          if colorOf attacker = White then g\<lparr>scoreWhite := scoreWhite g + pieceValues v\<rparr>
          else g\<lparr>scoreBlack := scoreBlack g + pieceValues v\<rparr>)"

text \<open>
  \<open>applyMoveToState(move, options)\<close>; the flag is \<open>options.simulate\<close>. The writes to
  \<open>this.board\<close>, in the order of the source: the en-passant victim, the castling rook,
  the relocation of the piece, the promotion.
\<close>

definition boardAfterMove :: "move \<Rightarrow> char \<Rightarrow> board \<Rightarrow> board" where
  "boardAfterMove m p b =
     (let color = colorOf p;
          frm = from_sq m;
          to = to_sq m;
          b2 = (if isEnPassant m
                then let dir = (if color = White then 1 else - 1)
                     in setCell b (sqrank to + dir) (sqfile to) None
                else b);
          b3 = (if isCastling m
                then let kingSide = (sqfile to = 6);
                         rookFromFile = (if kingSide then 7 else 0);
                         rookToFile = (if kingSide then 5 else 3);
                         rook = cell b2 (sqrank frm) rookFromFile
                     in setCell (setCell b2 (sqrank frm) rookFromFile None)
                          (sqrank frm) rookToFile rook
                else b2);
          b4 = setCell (setCell b3 (sqrank to) (sqfile to) (Some p))
                 (sqrank frm) (sqfile frm) None
      in case promotion m of
           Some pr \<Rightarrow> setCell b4 (sqrank to) (sqfile to) (Some pr)
         | None \<Rightarrow> b4)"

text \<open>
  The other fields each depend on the move and on their own old value only, so the model
  computes them side by side: the halfmove clock, the board, the castling rights
  (\<open>updateCR\<close> for the origin of the piece, then for the square of the captured piece) and
  the en-passant target. Outside simulation the FEN is rebuilt and the score updated.
\<close>

definition applyMoveToState :: "move \<Rightarrow> bool \<Rightarrow> ChessGame \<Rightarrow> ChessGame" where
  "applyMoveToState m simulate g =
     (case mpiece m of
        None \<Rightarrow> g
      | Some p \<Rightarrow>
          let frm = from_sq m;
              to = to_sq m;
              g7 = g\<lparr>halfmoveClock :=
                       (if toLowerCase p = CHR ''p'' \<or> capturedPiece m \<noteq> None \<or> isEnPassant m
                        then Some 0 else map_option (\<lambda>n. n + 1) (halfmoveClock g)),
                     board := boardAfterMove m p (board g),
                     castlingRights :=
                       updateCR (capturedPiece m) (sqrank to) (sqfile to)
                         (updateCR (Some p) (sqrank frm) (sqfile frm) (castlingRights g)),
                     enPassantTarget :=
                       (if toLowerCase p = CHR ''p'' \<and> \<bar>sqrank to - sqrank frm\<bar> = 2
                        then coordsToAlgebraic
                               \<lparr>sqrank = (sqrank to + sqrank frm) div 2, sqfile = sqfile frm\<rparr>
                        else ''-'')\<rparr>
          in if simulate then g7
             else updateScoreOnCapture p (capturedPiece m) (syncFENFromState g7))"

section \<open>The legality checker, the attack oracle and the enumerator\<close>

text \<open>
  The reasons \<open>isLegalMoveWithState\<close> gives with \<open>{ok: false, reason}\<close>, in the order of
  the source, and the record it returns with \<open>ok: true\<close>.
\<close>

datatype reason =
    NoPiece | SameSquare | OwnPieceOnTarget | NotTurn
  | Blocked | BadPawnMove | NoEP | BadPawnVector
  | BadKnightMove | BadBishopMove | BadRookMove | BadQueenMove
  | KingNotOnStart | BadCastleTarget | NoCastlingRights | PathBlocked
  | KingInCheck | ThroughCheck | IntoCheck | BadKingMove
  | LeavesKingInCheck

record legality =
  okEnPassant :: bool
  okCastling :: bool
  okPromotion :: "char option"

text \<open>
  \<open>snapshotState\<close> and \<open>restoreSnapshot\<close>: the rows are copied (\<open>r.slice()\<close>), which for
  values is the identity map.
\<close>

record snapshot =
  s_board :: board
  s_castlingRights :: castling
  s_enPassantTarget :: string
  s_halfmoveClock :: jsnum
  s_fullmoveNumber :: jsnum
  s_currentPlayer :: color

definition snapshotState :: "ChessGame \<Rightarrow> snapshot" where
  "snapshotState g =
     \<lparr>s_board = map (\<lambda>r. r) (board g),
      s_castlingRights = castlingRights g,
      s_enPassantTarget = enPassantTarget g,
      s_halfmoveClock = halfmoveClock g,
      s_fullmoveNumber = fullmoveNumber g,
      s_currentPlayer = currentPlayer g\<rparr>"

definition restoreSnapshot :: "snapshot \<Rightarrow> ChessGame \<Rightarrow> ChessGame" where
  "restoreSnapshot s g =
     g\<lparr>board := map (\<lambda>r. r) (s_board s),
       castlingRights := s_castlingRights s,
       enPassantTarget := s_enPassantTarget s,
       halfmoveClock := s_halfmoveClock s,
       fullmoveNumber := s_fullmoveNumber s,
       currentPlayer := s_currentPlayer s\<rparr>"

text \<open>
  The closure \<open>pathClear(drStep, dfStep, steps)\<close>: the squares \<open>from + i * step\<close> for
  \<open>1 \<le> i < steps\<close> are empty.
\<close>

definition pathClear :: "board \<Rightarrow> square \<Rightarrow> int \<Rightarrow> int \<Rightarrow> int \<Rightarrow> bool" where
  "pathClear b frm drStep dfStep steps =
     list_all (\<lambda>i. cell b (sqrank frm + drStep * i) (sqfile frm + dfStep * i) = None)
       [1..steps - 1]"

text \<open>
  The promotion letter of a pawn that reaches its last rank: \<open>promotionChar || 'q'\<close>,
  case-matched to the mover, and the queen when the letter is none of \<open>qrbnQRBN\<close>.
\<close>

definition resolvePromotion :: "color \<Rightarrow> square \<Rightarrow> char option \<Rightarrow> char option" where
  "resolvePromotion color to promotionChar =
     (let promoRank = (if color = White then 0 else 7)
      in if sqrank to = promoRank
         then let pch = (case promotionChar of Some c \<Rightarrow> c | None \<Rightarrow> CHR ''q'');
                  promotion = (if color = White then toUpperCase pch else toLowerCase pch)
              in if promotion \<notin> set ''qrbnQRBN''
                 then Some (if color = White then CHR ''Q'' else CHR ''q'')
                 else Some promotion
         else None)"

text \<open>
  The checks of \<open>isLegalMoveWithState\<close> that read the state without calling another
  method: \<open>pieceRules\<close> is the dispatch on \<open>piece.toLowerCase()\<close> (for the king up to the
  loop over the squares between king and rook; the result carries \<open>step\<close> when the move
  is a castling candidate), \<open>moveShape\<close> the four guards before it. In the castling
  branch the king stands on file 4 once \<open>King not on start\<close> has passed, so the loop
  \<open>for (f = from.file + step; f !== rookFile; f += step)\<close> visits the files
  \<open>from.file + step * i\<close> for \<open>1 \<le> i < |rookFile - from.file|\<close>.
\<close>

record shape =
  sh_piece :: char
  sh_color :: color
  sh_target :: "char option"
  sh_enPassant :: bool
  sh_promotion :: "char option"
  sh_castleStep :: "int option"

definition pieceRules ::
  "ChessGame \<Rightarrow> square \<Rightarrow> square \<Rightarrow> char \<Rightarrow> color \<Rightarrow> char option \<Rightarrow> char option
     \<Rightarrow> reason + (bool \<times> char option \<times> int option)" where
  "pieceRules g frm to p color targetPiece promotionChar =
     (let dr = sqrank to - sqrank frm;
          df = sqfile to - sqfile frm;
          pieceLower = toLowerCase p
      in
      if pieceLower = CHR ''p'' then
        (let dir = (if color = White then - 1 else 1);
             startRank = (if color = White then 6 else 1);
             promo = resolvePromotion color to promotionChar
         in
         if df = 0 then
           (if dr = dir \<and> targetPiece = None then Inr (False, promo, None)
            else if sqrank frm = startRank \<and> dr = 2 * dir \<and> targetPiece = None then
              (if cell (board g) (sqrank frm + dir) (sqfile frm) \<noteq> None then Inl Blocked
               else Inr (False, promo, None))
            else Inl BadPawnMove)
         else if \<bar>df\<bar> = 1 \<and> dr = dir then
           (if targetPiece \<noteq> None then Inr (False, promo, None)
            else
              (let ep = enPassantTarget g
               in if ep \<noteq> ''-'' then
                    (case algebraicToCoords ep of
                       Some epCoords \<Rightarrow>
                         if sqrank epCoords = sqrank to \<and> sqfile epCoords = sqfile to
                         then Inr (True, promo, None)
                         else Inl NoEP
                     | None \<Rightarrow> Inl NoEP)
                  else Inl NoEP))
         else Inl BadPawnVector)
      else if pieceLower = CHR ''n'' then
        (if (\<bar>dr\<bar> = 2 \<and> \<bar>df\<bar> = 1) \<or> (\<bar>dr\<bar> = 1 \<and> \<bar>df\<bar> = 2) then Inr (False, None, None)
         else Inl BadKnightMove)
      else if pieceLower = CHR ''b'' then
        (if \<bar>dr\<bar> \<noteq> \<bar>df\<bar> then Inl BadBishopMove
         else if \<not> pathClear (board g) frm (sgn dr) (sgn df) \<bar>dr\<bar> then Inl Blocked
         else Inr (False, None, None))
      else if pieceLower = CHR ''r'' then
        (if \<not> (dr = 0 \<or> df = 0) then Inl BadRookMove
         else if \<not> pathClear (board g) frm (sgn dr) (sgn df) (\<bar>dr\<bar> + \<bar>df\<bar>) then Inl Blocked
         else Inr (False, None, None))
      else if pieceLower = CHR ''q'' then
        (if \<not> (\<bar>dr\<bar> = \<bar>df\<bar> \<or> dr = 0 \<or> df = 0) then Inl BadQueenMove
         else if \<not> pathClear (board g) frm (sgn dr) (sgn df) (max \<bar>dr\<bar> \<bar>df\<bar>) then Inl Blocked
         else Inr (False, None, None))
      else if pieceLower = CHR ''k'' then
        (if dr = 0 \<and> \<bar>df\<bar> = 2 then
           (let rights = castlingRights g;
                sideKingRank = (if color = White then 7 else 0);
                kingSide = (sqfile to = 6);
                queenSide = (sqfile to = 2)
            in
            if sqrank frm \<noteq> sideKingRank \<or> sqfile frm \<noteq> 4 then Inl KingNotOnStart
            else if \<not> kingSide \<and> \<not> queenSide then Inl BadCastleTarget
            else if \<not> (if color = White
                        then (if kingSide then right_K rights else right_Q rights)
                        else (if kingSide then right_k rights else right_q rights))
            then Inl NoCastlingRights
            else
              (let rookFile = (if kingSide then 7 else 0);
                   step = (if kingSide then 1 else - 1)
               in if list_ex (\<lambda>i. cell (board g) (sqrank frm) (sqfile frm + step * i) \<noteq> None)
                       [1..\<bar>rookFile - sqfile frm\<bar> - 1]
                  then Inl PathBlocked
                  else Inr (False, None, Some step)))
         else if \<bar>dr\<bar> > 1 \<or> \<bar>df\<bar> > 1 then Inl BadKingMove
         else Inr (False, None, None))
      else Inr (False, None, None))"

definition moveShape ::
  "ChessGame \<Rightarrow> square \<Rightarrow> square \<Rightarrow> char option \<Rightarrow> char option \<Rightarrow> reason + shape" where
  "moveShape g frm to piece promotionChar =
     (case piece of
        None \<Rightarrow> Inl NoPiece
      | Some p \<Rightarrow>
          if sqrank frm = sqrank to \<and> sqfile frm = sqfile to then Inl SameSquare
          else
            (let targetPiece = cell (board g) (sqrank to) (sqfile to)
             in if (case targetPiece of Some t \<Rightarrow> isSameColor p t | None \<Rightarrow> False)
                then Inl OwnPieceOnTarget
                else
                  (let color = colorOf p
                   in if color \<noteq> currentPlayer g then Inl NotTurn
                      else
                        (case pieceRules g frm to p color targetPiece promotionChar of
                           Inl r \<Rightarrow> Inl r
                         | Inr (ep, promo, castle) \<Rightarrow>
                             Inr \<lparr>sh_piece = p, sh_color = color, sh_target = targetPiece,
                                  sh_enPassant = ep, sh_promotion = promo,
                                  sh_castleStep = castle\<rparr>))))"

text \<open>
  The entries of the list \<open>generateAllPseudoLegalMoves\<close> returns, the 64 squares in the
  order of its loops, and the search of \<open>isKingInCheck\<close> for the king (the last match
  wins).
\<close>

record gen_move =
  gm_from :: square
  gm_to :: square
  gm_piece :: char
  gm_captured :: "char option"
  gm_meta :: legality

definition allSquares :: "square list" where
  "allSquares = concat (map (\<lambda>r. map (\<lambda>f. \<lparr>sqrank = r, sqfile = f\<rparr>) [0..7]) [0..7])"

definition findKing :: "board \<Rightarrow> char \<Rightarrow> square option" where
  "findKing b kingPiece =
     fold (\<lambda>s kingSq. if cell b (sqrank s) (sqfile s) = Some kingPiece then Some s else kingSq)
       allSquares None"

text \<open>
  The four methods call one another: \<open>isLegalMoveWithState\<close> asks \<open>isSquareAttacked\<close>
  (castling) and \<open>isKingInCheck\<close> (after the simulated move), \<open>isSquareAttacked\<close>
  enumerates the moves of the other side with \<open>generateAllPseudoLegalMoves\<close>, which
  filters every pair of squares through \<open>isLegalMoveWithState\<close>. Each takes the object
  and returns it next to its result. \<open>genFromLoop\<close> and \<open>genToLoop\<close> are the outer and
  the inner pair of loops of the enumerator (\<open>includeKingSafety\<close> is computed and never
  read, as in the source).
\<close>

function
  isLegalMoveWithState ::
    "square \<Rightarrow> square \<Rightarrow> char option \<Rightarrow> char option \<Rightarrow> ChessGame
       \<Rightarrow> (reason + legality) \<times> ChessGame"
and isSquareAttacked :: "square \<Rightarrow> color \<Rightarrow> ChessGame \<Rightarrow> bool \<times> ChessGame"
and isKingInCheck :: "color \<Rightarrow> ChessGame \<Rightarrow> bool \<times> ChessGame"
and generateAllPseudoLegalMoves ::
    "color \<Rightarrow> bool option \<Rightarrow> ChessGame \<Rightarrow> gen_move list \<times> ChessGame"
and genFromLoop ::
    "color \<Rightarrow> square list \<Rightarrow> gen_move list \<Rightarrow> ChessGame \<Rightarrow> gen_move list \<times> ChessGame"
and genToLoop ::
    "square \<Rightarrow> char \<Rightarrow> square list \<Rightarrow> gen_move list \<Rightarrow> ChessGame
       \<Rightarrow> gen_move list \<times> ChessGame"
where
  "isLegalMoveWithState frm to piece promotionChar g =
     (case moveShape g frm to piece promotionChar of
        Inl r \<Rightarrow> (Inl r, g)
      | Inr sh \<Rightarrow>
          (case
             (case sh_castleStep sh of
                None \<Rightarrow> (None, g)
              | Some step \<Rightarrow>
                  (case isSquareAttacked frm (sh_color sh) g of
                     (a1, g1) \<Rightarrow>
                       if a1 then (Some KingInCheck, g1)
                       else
                         (case isSquareAttacked
                                 \<lparr>sqrank = sqrank frm, sqfile = sqfile frm + step\<rparr>
                                 (sh_color sh) g1 of
                            (a2, g2) \<Rightarrow>
                              if a2 then (Some ThroughCheck, g2)
                              else
                                (case isSquareAttacked to (sh_color sh) g2 of
                                   (a3, g3) \<Rightarrow>
                                     if a3 then (Some IntoCheck, g3) else (None, g3)))))
           of
             (Some r, g') \<Rightarrow> (Inl r, g')
           | (None, g') \<Rightarrow>
               (let snapshot = snapshotState g';
                    g1 = applyMoveToState
                           \<lparr>from_sq = frm, to_sq = to, mpiece = Some (sh_piece sh),
                            capturedPiece = sh_target sh, promotion = sh_promotion sh,
                            isEnPassant = sh_enPassant sh,
                            isCastling = (sh_castleStep sh \<noteq> None)\<rparr> True g'
                in case isKingInCheck (sh_color sh) g1 of
                     (stillInCheck, g2) \<Rightarrow>
                       (let g3 = restoreSnapshot snapshot g2
                        in if stillInCheck then (Inl LeavesKingInCheck, g3)
                           else (Inr \<lparr>okEnPassant = sh_enPassant sh,
                                      okCastling = (sh_castleStep sh \<noteq> None),
                                      okPromotion = sh_promotion sh\<rparr>, g3)))))"
| "isSquareAttacked square color g =
     (let attacker = (if color = White then Black else White)
      in case generateAllPseudoLegalMoves attacker (Some False) g of
           (attacks, g1) \<Rightarrow>
             (list_ex (\<lambda>m. sqrank (gm_to m) = sqrank square \<and> sqfile (gm_to m) = sqfile square)
                attacks, g1))"
| "isKingInCheck color g =
     (let kingPiece = (if color = White then CHR ''K'' else CHR ''k'')
      in case findKing (board g) kingPiece of
           None \<Rightarrow> (False, g)
         | Some kingSq \<Rightarrow> isSquareAttacked kingSq color g)"
| "generateAllPseudoLegalMoves player opts g =
     (let includeKingSafety = (opts \<noteq> Some False)
      in genFromLoop player allSquares [] g)"
| "genFromLoop player froms moves g =
     (case froms of
        [] \<Rightarrow> (moves, g)
      | frm # rest \<Rightarrow>
          (case cell (board g) (sqrank frm) (sqfile frm) of
             None \<Rightarrow> genFromLoop player rest moves g
           | Some p \<Rightarrow>
               if \<not> isPieceOwnedByPlayer p player then genFromLoop player rest moves g
               else
                 (case genToLoop frm p allSquares moves g of
                    (moves1, g1) \<Rightarrow> genFromLoop player rest moves1 g1)))"
| "genToLoop frm p tos moves g =
     (case tos of
        [] \<Rightarrow> (moves, g)
      | to # rest \<Rightarrow>
          (case isLegalMoveWithState frm to (Some p) None g of
             (res, g1) \<Rightarrow>
               genToLoop frm p rest
                 (case res of
                    Inr meta \<Rightarrow>
                      moves @ [\<lparr>gm_from = frm, gm_to = to, gm_piece = p,
                                gm_captured = cell (board g1) (sqrank to) (sqfile to),
                                gm_meta = meta\<rparr>]
                  | Inl r \<Rightarrow> moves)
                 g1))"
  by pat_completeness auto


subsection \<open>Termination\<close>

text \<open>
  The recursion ends because a piece that is not of the side to move is refused with
  \<open>Not turn\<close> before any call, and no call changes the side to move. The second fact
  is proved first, on the domain of the functions.
\<close>

lemma applyMoveToState_currentPlayer:
  "currentPlayer (applyMoveToState m simulate g) = currentPlayer g"
  by (simp add: applyMoveToState_def Let_def syncFENFromState_def updateScoreOnCapture_def
      split: option.splits)

lemma restore_after_simulation:
  "restoreSnapshot (snapshotState g) (applyMoveToState m True g) = g"
  by (simp add: applyMoveToState_def Let_def restoreSnapshot_def snapshotState_def
      split: option.splits)

lemma moveShape_Inr:
  assumes "moveShape g frm to piece promotionChar = Inr sh"
  shows "piece = Some (sh_piece sh)" and "sh_color sh = currentPlayer g"
    and "colorOf (sh_piece sh) = currentPlayer g"
  using assms
  by (auto simp: moveShape_def Let_def split: option.splits if_splits sum.splits prod.splits)

lemma owned_colorOf: "isPieceOwnedByPlayer p player \<Longrightarrow> colorOf p = player"
  by (cases player) (auto simp: isPieceOwnedByPlayer_def colorOf_def isWhitePiece_def isBlackPiece_def)

lemmas engine_dom = isLegalMoveWithState_isSquareAttacked_isKingInCheck_generateAllPseudoLegalMoves_genFromLoop_genToLoop.pinduct

lemma frame_dom:
  "isLegalMoveWithState_isSquareAttacked_isKingInCheck_generateAllPseudoLegalMoves_genFromLoop_genToLoop_dom
     (Inl (Inl (frm, to, piece, promotionChar, g)))
   \<Longrightarrow> snd (isLegalMoveWithState frm to piece promotionChar g) = g"
  "isLegalMoveWithState_isSquareAttacked_isKingInCheck_generateAllPseudoLegalMoves_genFromLoop_genToLoop_dom
     (Inl (Inr (Inl (square, color, g1))))
   \<Longrightarrow> snd (isSquareAttacked square color g1) = g1"
  "isLegalMoveWithState_isSquareAttacked_isKingInCheck_generateAllPseudoLegalMoves_genFromLoop_genToLoop_dom
     (Inl (Inr (Inr (color2, g2))))
   \<Longrightarrow> snd (isKingInCheck color2 g2) = g2"
  "isLegalMoveWithState_isSquareAttacked_isKingInCheck_generateAllPseudoLegalMoves_genFromLoop_genToLoop_dom
     (Inr (Inl (player, opts, g3)))
   \<Longrightarrow> snd (generateAllPseudoLegalMoves player opts g3) = g3"
  "isLegalMoveWithState_isSquareAttacked_isKingInCheck_generateAllPseudoLegalMoves_genFromLoop_genToLoop_dom
     (Inr (Inr (Inl (player2, froms, moves, g4))))
   \<Longrightarrow> snd (genFromLoop player2 froms moves g4) = g4"
  "isLegalMoveWithState_isSquareAttacked_isKingInCheck_generateAllPseudoLegalMoves_genFromLoop_genToLoop_dom
     (Inr (Inr (Inr (frm2, p, tos, moves2, g5))))
   \<Longrightarrow> snd (genToLoop frm2 p tos moves2 g5) = g5"
proof (induction rule: engine_dom)
  case (1 frm to piece promotionChar g)
  note dom = 1(1)
  show ?case
  proof (cases "moveShape g frm to piece promotionChar")
    case (Inl r)
    then show ?thesis by (simp add: isLegalMoveWithState.psimps[OF dom])
  next
    case (Inr sh)
    let ?c = "sh_color sh"
    let ?mv = "\<lparr>from_sq = frm, to_sq = to, mpiece = Some (sh_piece sh),
                 capturedPiece = sh_target sh, promotion = sh_promotion sh,
                 isEnPassant = sh_enPassant sh, isCastling = (sh_castleStep sh \<noteq> None)\<rparr>"
    show ?thesis
    proof (cases "sh_castleStep sh")
      case None
      obtain s h where K: "isKingInCheck ?c (applyMoveToState ?mv True g) = (s, h)"
        by (cases "isKingInCheck ?c (applyMoveToState ?mv True g)")
      have h: "h = applyMoveToState ?mv True g"
        using 1(5)[OF Inr, of None g] None K by simp
      show ?thesis
        using Inr None K h
        by (simp add: isLegalMoveWithState.psimps[OF dom] Let_def restore_after_simulation)
    next
      case (Some step)
      let ?mid = "\<lparr>sqrank = sqrank frm, sqfile = sqfile frm + step\<rparr>"
      obtain a1 h1 where A1: "isSquareAttacked frm ?c g = (a1, h1)" by (cases "isSquareAttacked frm ?c g")
      have h1: "h1 = g" using 1(2)[OF Inr Some] A1 by simp
      show ?thesis
      proof (cases a1)
        case True
        then show ?thesis using Inr Some A1 h1
          by (simp add: isLegalMoveWithState.psimps[OF dom])
      next
        case na1: False
        obtain a2 h2 where A2: "isSquareAttacked ?mid ?c g = (a2, h2)"
          by (cases "isSquareAttacked ?mid ?c g")
        have h2: "h2 = g" using 1(3)[OF Inr Some A1[symmetric] na1] A2 h1 by simp
        show ?thesis
        proof (cases a2)
          case True
          then show ?thesis using Inr Some A1 h1 na1 A2 h2
            by (simp add: isLegalMoveWithState.psimps[OF dom])
        next
          case na2: False
          obtain a3 h3 where A3: "isSquareAttacked to ?c g = (a3, h3)"
            by (cases "isSquareAttacked to ?c g")
          have h3: "h3 = g"
            using 1(4)[OF Inr Some A1[symmetric] na1, of a2 h2] A2 A3 h1 h2 na2 by simp
          show ?thesis
          proof (cases a3)
            case True
            then show ?thesis using Inr Some A1 h1 na1 A2 h2 na2 A3 h3
              by (simp add: isLegalMoveWithState.psimps[OF dom])
          next
            case na3: False
            obtain s h where K: "isKingInCheck ?c (applyMoveToState ?mv True g) = (s, h)"
              by (cases "isKingInCheck ?c (applyMoveToState ?mv True g)")
            have h: "h = applyMoveToState ?mv True g"
              using 1(5)[OF Inr, of None g] Some A1 h1 na1 A2 h2 na2 A3 h3 na3 K by simp
            show ?thesis using Inr Some A1 h1 na1 A2 h2 na2 A3 h3 na3 K h
              by (simp add: isLegalMoveWithState.psimps[OF dom] Let_def restore_after_simulation)
          qed
        qed
      qed
    qed
  qed
next
  case (2 square color g)
  have "snd (generateAllPseudoLegalMoves (if color = White then Black else White) (Some False) g) = g"
    using 2(2) by simp
  then show ?case
    by (simp add: isSquareAttacked.psimps[OF 2(1)] Let_def split_beta)
next
  case (3 color g)
  show ?case
  proof (cases "findKing (board g) (if color = White then CHR ''K'' else CHR ''k'')")
    case None
    then show ?thesis by (simp add: isKingInCheck.psimps[OF 3(1)] Let_def)
  next
    case (Some kingSq)
    then show ?thesis using 3(2)[OF refl Some]
      by (simp add: isKingInCheck.psimps[OF 3(1)] Let_def)
  qed
next
  case (4 player opts g)
  then show ?case
    by (simp add: generateAllPseudoLegalMoves.psimps[OF 4(1)] Let_def)
next
  case (5 player froms moves g)
  note dom = 5(1)
  show ?case
  proof (cases froms)
    case Nil
    show ?thesis unfolding genFromLoop.psimps[OF dom] using Nil by simp
  next
    case (Cons frm rest)
    show ?thesis
    proof (cases "cell (board g) (sqrank frm) (sqfile frm)")
      case None
      show ?thesis unfolding genFromLoop.psimps[OF dom] using Cons None 5(2)[OF Cons None]
        by simp
    next
      case (Some p)
      show ?thesis
      proof (cases "isPieceOwnedByPlayer p player")
        case False
        show ?thesis unfolding genFromLoop.psimps[OF dom]
          using Cons Some False 5(3)[OF Cons Some False] by simp
      next
        case True
        obtain ms h where T: "genToLoop frm p allSquares moves g = (ms, h)"
          by (cases "genToLoop frm p allSquares moves g")
        have nn: "\<not> \<not> isPieceOwnedByPlayer p player" using True by simp
        have h: "h = g" using 5(4)[OF Cons Some nn] T by simp
        have T': "genToLoop frm p allSquares moves g = (ms, g)" using T h by simp
        show ?thesis unfolding genFromLoop.psimps[OF dom]
          using Cons Some True T' 5(5)[OF Cons Some nn T'[symmetric]] by simp
      qed
    qed
  qed
next
  case (6 frm p tos moves g)
  note dom = 6(1)
  show ?case
  proof (cases tos)
    case Nil
    show ?thesis unfolding genToLoop.psimps[OF dom] using Nil by simp
  next
    case (Cons to rest)
    obtain res h where L: "isLegalMoveWithState frm to (Some p) None g = (res, h)"
      by (cases "isLegalMoveWithState frm to (Some p) None g")
    have h: "h = g" using 6(2)[OF Cons] L by simp
    have L': "isLegalMoveWithState frm to (Some p) None g = (res, g)" using L h by simp
    show ?thesis unfolding genToLoop.psimps[OF dom]
      using Cons L' 6(3)[OF Cons L'[symmetric]] by simp
  qed
qed

lemma frameA:
  "(a, h) = isSquareAttacked sq c g \<Longrightarrow>
   isLegalMoveWithState_isSquareAttacked_isKingInCheck_generateAllPseudoLegalMoves_genFromLoop_genToLoop_dom
     (Inl (Inr (Inl (sq, c, g)))) \<Longrightarrow> h = g"
  using frame_dom(2)[of sq c g] by (metis snd_conv)

lemma castle_part_dom:
  assumes C: "(x, y) =
      (case cs of
         None \<Rightarrow> (None, g)
       | Some step \<Rightarrow>
           (case isSquareAttacked frm c g of
              (a1, g1) \<Rightarrow>
                if a1 then (Some KingInCheck, g1)
                else
                  (case isSquareAttacked \<lparr>sqrank = sqrank frm, sqfile = sqfile frm + step\<rparr> c g1 of
                     (a2, g2) \<Rightarrow>
                       if a2 then (Some ThroughCheck, g2)
                       else
                         (case isSquareAttacked to c g2 of
                            (a3, g3) \<Rightarrow> if a3 then (Some IntoCheck, g3) else (None, g3)))))"
    and D1: "\<And>x2. cs = Some x2 \<Longrightarrow>
        isLegalMoveWithState_isSquareAttacked_isKingInCheck_generateAllPseudoLegalMoves_genFromLoop_genToLoop_dom
          (Inl (Inr (Inl (frm, c, g))))"
    and D2: "\<And>x2 x y. cs = Some x2 \<Longrightarrow> (x, y) = isSquareAttacked frm c g \<Longrightarrow> \<not> x \<Longrightarrow>
        isLegalMoveWithState_isSquareAttacked_isKingInCheck_generateAllPseudoLegalMoves_genFromLoop_genToLoop_dom
          (Inl (Inr (Inl (\<lparr>sqrank = sqrank frm, sqfile = sqfile frm + x2\<rparr>, c, y))))"
    and D3: "\<And>x2 x y xa ya. cs = Some x2 \<Longrightarrow> (x, y) = isSquareAttacked frm c g \<Longrightarrow> \<not> x \<Longrightarrow>
        (xa, ya) = isSquareAttacked \<lparr>sqrank = sqrank frm, sqfile = sqfile frm + x2\<rparr> c y \<Longrightarrow>
        \<not> xa \<Longrightarrow>
        isLegalMoveWithState_isSquareAttacked_isKingInCheck_generateAllPseudoLegalMoves_genFromLoop_genToLoop_dom
          (Inl (Inr (Inl (to, c, ya))))"
  shows "y = g"
proof (cases cs)
  case None
  then show ?thesis using C by simp
next
  case (Some step)
  obtain a1 h1 where A1: "isSquareAttacked frm c g = (a1, h1)"
    by (cases "isSquareAttacked frm c g")
  have h1: "h1 = g" using frameA[OF A1[symmetric] D1[OF Some]] .
  show ?thesis
  proof (cases a1)
    case True
    have "(x, y) = (Some KingInCheck, h1)"
      using C Some A1 True by simp
    then show ?thesis using h1 by simp
  next
    case na1: False
    obtain a2 h2 where
      A2: "isSquareAttacked \<lparr>sqrank = sqrank frm, sqfile = sqfile frm + step\<rparr> c h1 = (a2, h2)"
      by (cases "isSquareAttacked \<lparr>sqrank = sqrank frm, sqfile = sqfile frm + step\<rparr> c h1")
    have h2: "h2 = h1" using frameA[OF A2[symmetric] D2[OF Some A1[symmetric] na1]] .
    show ?thesis
    proof (cases a2)
      case True
      have "(x, y) = (Some ThroughCheck, h2)"
        using C Some A1 True na1 A2 by simp
      then show ?thesis using h1 h2 by simp
    next
      case na2: False
      obtain a3 h3 where A3: "isSquareAttacked to c h2 = (a3, h3)"
        by (cases "isSquareAttacked to c h2")
      have h3: "h3 = h2"
        using frameA[OF A3[symmetric] D3[OF Some A1[symmetric] na1 A2[symmetric] na2]] .
      have "y = h3"
        using C Some A1 na1 na2 A2 A3 by (cases a3) simp_all
      then show ?thesis using h1 h2 h3 by simp
    qed
  qed
qed

definition engineMeasure where
  "engineMeasure x =
     (case x of
        Inl (Inl (frm, to, piece, promotionChar, g)) \<Rightarrow>
          (if (case piece of Some p \<Rightarrow> colorOf p = currentPlayer g | None \<Rightarrow> False)
           then 6 else 0, 0::nat)
      | Inl (Inr (Inl (square, color, g))) \<Rightarrow>
          (if color = currentPlayer g then 4 else 10, 0)
      | Inl (Inr (Inr (color, g))) \<Rightarrow>
          (if color = currentPlayer g then 5 else 11, 0)
      | Inr (Inl (player, opts, g)) \<Rightarrow>
          (if player = currentPlayer g then 9 else (3::nat), 0)
      | Inr (Inr (Inl (player, froms, moves, g))) \<Rightarrow>
          (if player = currentPlayer g then 8 else 2, length froms)
      | Inr (Inr (Inr (frm, p, tos, moves, g))) \<Rightarrow>
          (if colorOf p = currentPlayer g then 7 else 1, length tos))"

lemma engine_total:
  "All isLegalMoveWithState_isSquareAttacked_isKingInCheck_generateAllPseudoLegalMoves_genFromLoop_genToLoop_dom"
  apply (relation "inv_image (less_than <*lex*> less_than) engineMeasure")
  apply (intro wf_inv_image wf_lex_prod wf_less_than)
  subgoal for frm to piece promotionChar g sh step
    using moveShape_Inr[of g frm to piece promotionChar sh]
    by (simp add: engineMeasure_def)
  subgoal premises prems for frm to piece promotionChar g sh step a1 h1
  proof -
    have "h1 = g" using prems by (blast dest: frameA)
    then show ?thesis using moveShape_Inr[OF prems(1)] by (simp add: engineMeasure_def)
  qed
  subgoal premises prems for frm to piece promotionChar g sh step a1 h1 a2 h2
  proof -
    have h1: "h1 = g" using prems by (blast dest: frameA)
    have "h2 = g" using prems unfolding h1 by (blast dest: frameA)
    then show ?thesis using moveShape_Inr[OF prems(1)] by (simp add: engineMeasure_def)
  qed
  subgoal premises prems for frm to piece promotionChar g sh x y xa xb
  proof -
    have "y = g"
      by (rule castle_part_dom[OF prems(2) prems(6) prems(7) prems(8)])
    then show ?thesis
      using prems(5) moveShape_Inr[OF prems(1)]
      by (simp add: engineMeasure_def applyMoveToState_currentPlayer)
  qed
  subgoal for square color g attacker
    by (cases color; cases "currentPlayer g"; simp add: engineMeasure_def)
  subgoal by (simp add: engineMeasure_def)
  subgoal by (simp add: engineMeasure_def)
  subgoal by (simp add: engineMeasure_def)
  subgoal by (simp add: engineMeasure_def)
  subgoal by (simp add: engineMeasure_def owned_colorOf)
  subgoal premises prems for player froms moves g frm rest p ms h
  proof -
    have "h = g" using prems(4) frame_dom(6)[OF prems(5)] by (metis snd_conv)
    then show ?thesis using prems(1) by (simp add: engineMeasure_def)
  qed
  subgoal by (simp add: engineMeasure_def)
  subgoal premises prems for frm p tos moves g to rest res h
  proof -
    have "h = g" using prems(2) frame_dom(1)[OF prems(3)] by (metis snd_conv)
    then show ?thesis using prems(1) by (simp add: engineMeasure_def)
  qed
  done





termination isLegalMoveWithState
  by (rule engine_total)

subsection \<open>No call changes the object\<close>

lemma isLegalMoveWithState_frame [simp]:
  "snd (isLegalMoveWithState frm to piece promotionChar g) = g"
  using frame_dom(1) engine_total by blast

lemma isSquareAttacked_frame [simp]: "snd (isSquareAttacked square color g) = g"
  using frame_dom(2) engine_total by blast

lemma isKingInCheck_frame [simp]: "snd (isKingInCheck color g) = g"
  using frame_dom(3) engine_total by blast

lemma generateAllPseudoLegalMoves_frame [simp]:
  "snd (generateAllPseudoLegalMoves player opts g) = g"
  using frame_dom(4) engine_total by blast



declare isLegalMoveWithState.simps [simp del] isSquareAttacked.simps [simp del]
  isKingInCheck.simps [simp del] generateAllPseudoLegalMoves.simps [simp del]
  genFromLoop.simps [simp del] genToLoop.simps [simp del]

text \<open>\<open>generateAllLegalMoves(player)\<close> passes \<open>{includeKingSafety: true}\<close>.\<close>

definition generateAllLegalMoves :: "color \<Rightarrow> ChessGame \<Rightarrow> gen_move list \<times> ChessGame" where
  "generateAllLegalMoves player g = generateAllPseudoLegalMoves player (Some True) g"

section \<open>FEN decoding: \<open>validateFEN\<close>, \<open>parseFENPlacement\<close>, \<open>setPositionFromFEN\<close>\<close>

text \<open>\<open>s.split(sep)\<close> for a one-character separator: \<open>n\<close> separators give \<open>n + 1\<close> parts.\<close>

fun splitOn :: "char \<Rightarrow> string \<Rightarrow> string list" where
  "splitOn sep [] = [[]]"
| "splitOn sep (c # cs) =
     (if c = sep then [] # splitOn sep cs
      else (case splitOn sep cs of p # ps \<Rightarrow> (c # p) # ps | [] \<Rightarrow> [[c]]))"

text \<open>
  The regular expressions of \<open>validateFEN\<close>, all anchored with \<open>^\<close> and \<open>$\<close>, and their
  matcher by derivatives: \<open>matches r s\<close> is \<open>/^r$/.test(s)\<close>.
\<close>

datatype rx = Zero | One | Class "char list" | Seq rx rx | Alt rx rx | Star rx

definition Opt :: "rx \<Rightarrow> rx" where
  "Opt r = Alt r One"

definition Plus :: "rx \<Rightarrow> rx" where
  "Plus r = Seq r (Star r)"

fun nullable :: "rx \<Rightarrow> bool" where
  "nullable Zero = False"
| "nullable One = True"
| "nullable (Class cs) = False"
| "nullable (Seq r s) = (nullable r \<and> nullable s)"
| "nullable (Alt r s) = (nullable r \<or> nullable s)"
| "nullable (Star r) = True"

fun deriv :: "char \<Rightarrow> rx \<Rightarrow> rx" where
  "deriv c Zero = Zero"
| "deriv c One = Zero"
| "deriv c (Class cs) = (if c \<in> set cs then One else Zero)"
| "deriv c (Seq r s) =
     (if nullable r then Alt (Seq (deriv c r) s) (deriv c s) else Seq (deriv c r) s)"
| "deriv c (Alt r s) = Alt (deriv c r) (deriv c s)"
| "deriv c (Star r) = Seq (deriv c r) (Star r)"

fun matches :: "rx \<Rightarrow> string \<Rightarrow> bool" where
  "matches r [] = nullable r"
| "matches r (c # cs) = matches (deriv c r) cs"

text \<open>
  \<open>/^[wb]$/\<close>, \<open>/^(-|K?Q?k?q?)$/\<close>, \<open>/^(-|[a-h][36])$/\<close>, \<open>/^(-|[a-h])$/\<close> and
  \<open>/^\d+$/\<close>.
\<close>

definition rxSide :: rx where
  "rxSide = Class ''wb''"

definition rxCastling :: rx where
  "rxCastling =
     Alt (Class ''-'')
       (Seq (Opt (Class ''K'')) (Seq (Opt (Class ''Q'')) (Seq (Opt (Class ''k'')) (Opt (Class ''q'')))))"

definition rxEnPassantSquare :: rx where
  "rxEnPassantSquare = Alt (Class ''-'') (Seq (Class ''abcdefgh'') (Class ''36''))"

definition rxEnPassantFile :: rx where
  "rxEnPassantFile = Alt (Class ''-'') (Class ''abcdefgh'')"

definition rxNumber :: rx where
  "rxNumber = Plus (Class ''0123456789'')"

text \<open>
  The loop of \<open>validateFEN\<close> over the characters of one row: \<open>None\<close> is its
  \<open>return false\<close> on a character that is neither a digit (\<open>/\d/\<close>) nor a piece letter
  (\<open>/[prnbqkPRNBQK]/\<close>).
\<close>

definition isPieceLetter :: "char \<Rightarrow> bool" where
  "isPieceLetter c = (c \<in> set ''prnbqkPRNBQK'')"

fun rowCount :: "string \<Rightarrow> nat \<Rightarrow> nat option" where
  "rowCount [] count = Some count"
| "rowCount (c # cs) count =
     (if isDigit c then rowCount cs (count + digitVal c)
      else if isPieceLetter c then rowCount cs (count + 1)
      else None)"

definition validateFEN :: "string \<Rightarrow> bool" where
  "validateFEN fen =
     (if fen = [] then False
      else
        (let parts = splitOn (CHR '' '') fen
         in if length parts < 4 then False
            else
              (let rows = splitOn (CHR ''/'') (parts ! 0)
               in if length rows \<noteq> 8 then False
                  else if \<not> list_all (\<lambda>row. rowCount row 0 = Some 8) rows then False
                  else if \<not> matches rxSide (parts ! 1) then False
                  else if \<not> matches rxCastling (parts ! 2) then False
                  else if \<not> matches rxEnPassantSquare (parts ! 3)
                          \<and> \<not> matches rxEnPassantFile (parts ! 3) then False
                  else if 4 < length parts \<and> parts ! 4 \<noteq> []
                          \<and> \<not> matches rxNumber (parts ! 4) then False
                  else if 5 < length parts \<and> parts ! 5 \<noteq> []
                          \<and> \<not> matches rxNumber (parts ! 5) then False
                  else True)))"

text \<open>
  \<open>parseFENPlacement\<close>: the loop over the characters of one row, writing into a row of
  the empty board, and the loop over the first eight rows. With fewer than eight rows
  \<open>rows[rank]\<close> is \<open>undefined\<close> and the iteration throws a TypeError.
\<close>

datatype js_error = TypeError

fun parseRowLoop :: "string \<Rightarrow> nat \<Rightarrow> char option list \<Rightarrow> char option list" where
  "parseRowLoop [] fileIdx row = row"
| "parseRowLoop (c # cs) fileIdx row =
     (if isDigit c then parseRowLoop cs (fileIdx + digitVal c) row
      else parseRowLoop cs (fileIdx + 1) (jsSet row fileIdx (Some c)))"

definition parseFENPlacement :: "string \<Rightarrow> js_error + board" where
  "parseFENPlacement placement =
     (let rows = splitOn (CHR ''/'') placement
      in if length rows < 8 then Inl TypeError
         else Inr (map (\<lambda>r. parseRowLoop (rows ! r) 0 (replicate 8 None)) [0..<8]))"

text \<open>
  \<open>parseInt(s, 10)\<close>: leading white space, an optional sign, then the longest run of
  digits; NaN (\<open>None\<close>) when there is none.
\<close>

fun digitsValue :: "string \<Rightarrow> nat \<Rightarrow> nat" where
  "digitsValue [] acc = acc"
| "digitsValue (c # cs) acc = digitsValue cs (10 * acc + digitVal c)"

definition isWhiteSpace :: "char \<Rightarrow> bool" where
  "isWhiteSpace c = ((of_char c :: nat) \<in> set [9, 10, 11, 12, 13, 32, 160])"

definition parseInt :: "string \<Rightarrow> jsnum" where
  "parseInt s =
     (let s1 = dropWhile isWhiteSpace s;
          neg = (s1 \<noteq> [] \<and> hd s1 = CHR ''-'');
          s2 = (if s1 \<noteq> [] \<and> (hd s1 = CHR ''-'' \<or> hd s1 = CHR ''+'') then tl s1 else s1);
          ds = takeWhile isDigit s2
      in if ds = [] then None
         else Some ((if neg then - 1 else 1) * int (digitsValue ds 0)))"

text \<open>
  \<open>setPositionFromFEN\<close>. The destructuring leaves a missing field \<open>undefined\<close>:
  \<open>castling.includes\<close> then throws, \<open>ep\<close>, \<open>half\<close> and \<open>full\<close> take their defaults (as
  an empty field does). In phase 1 the method ends with \<open>renderBoardEditor\<close>, whose one
  effect on the fields modelled here is its call of \<open>syncFENFromState\<close>.
\<close>

definition setPositionFromFEN :: "string \<Rightarrow> ChessGame \<Rightarrow> js_error + ChessGame" where
  "setPositionFromFEN fen g =
     (let parts = splitOn (CHR '' '') fen;
          field = (\<lambda>i. if i < length parts then Some (parts ! i) else None)
      in case parseFENPlacement (parts ! 0) of
           Inl e \<Rightarrow> Inl e
         | Inr b \<Rightarrow>
             (case field 2 of
                None \<Rightarrow> Inl TypeError
              | Some castling \<Rightarrow>
                  (let ep = (case field 3 of Some x \<Rightarrow> (if x = [] then ''-'' else x) | None \<Rightarrow> ''-'');
                       half = (case field 4 of Some x \<Rightarrow> (if x = [] then ''0'' else x) | None \<Rightarrow> ''0'');
                       full = (case field 5 of Some x \<Rightarrow> (if x = [] then ''1'' else x) | None \<Rightarrow> ''1'');
                       g1 = g\<lparr>currentFEN := fen,
                              board := b,
                              currentPlayer := (if field 1 = Some ''w'' then White else Black),
                              castlingRights :=
                                \<lparr>right_K = (CHR ''K'' \<in> set castling),
                                 right_Q = (CHR ''Q'' \<in> set castling),
                                 right_k = (CHR ''k'' \<in> set castling),
                                 right_q = (CHR ''q'' \<in> set castling)\<rparr>,
                              enPassantTarget := ep,
                              halfmoveClock := parseInt half,
                              fullmoveNumber := parseInt full\<rparr>
                   in Inr (if currentPhase g = 1 then syncFENFromState g1 else g1))))"

text \<open>The state the constructor builds, before any position is loaded.\<close>

definition newChessGame :: ChessGame where
  "newChessGame =
     \<lparr>board = createEmptyBoard,
      currentFEN = ''rnbqkbnr/pppppppp/8/8/8/8/PPPPPPPP/RNBQKBNR w KQkq - 0 1'',
      currentPlayer = White,
      castlingRights = \<lparr>right_K = True, right_Q = True, right_k = True, right_q = True\<rparr>,
      enPassantTarget = ''-'',
      halfmoveClock = Some 0,
      fullmoveNumber = Some 1,
      moveCountWhite = 0,
      moveCountBlack = 0,
      maxMoves = 6,
      scoreWhite = 0,
      scoreBlack = 0,
      gameActive = False,
      gameResult = None,
      currentPhase = 0\<rparr>"


section \<open>The turn sequence: \<open>endPlayerTurn\<close>, \<open>endAITurn\<close> and the end of the game\<close>

definition determineWinnerByReason :: "end_reason \<Rightarrow> ChessGame \<Rightarrow> winner" where
  "determineWinnerByReason reason g =
     (if reason = Checkmate then (if currentPlayer g = White then BlackWins else WhiteWins)
      else if scoreWhite g > scoreBlack g then WhiteWins
      else if scoreBlack g > scoreWhite g then BlackWins
      else Draw)"

definition endGame :: "end_reason \<Rightarrow> ChessGame \<Rightarrow> ChessGame" where
  "endGame reason g =
     (let g1 = g\<lparr>gameActive := False\<rparr>
      in g1\<lparr>gameResult :=
               Some \<lparr>endReason = reason,
                     gameWinner = determineWinnerByReason reason g1,
                     finalScore = (scoreWhite g1, scoreBlack g1),
                     totalMoves = moveCountWhite g1 + moveCountBlack g1\<rparr>,
             currentPhase := 4\<rparr>)"

definition checkGameEndEarly :: "ChessGame \<Rightarrow> bool \<times> ChessGame" where
  "checkGameEndEarly g =
     (let playerToMove = currentPlayer g
      in case generateAllLegalMoves playerToMove g of
           (moves, g1) \<Rightarrow>
             (let hasMoves = (length moves > 0)
              in case isKingInCheck playerToMove g1 of
                   (inCheck, g2) \<Rightarrow>
                     if \<not> hasMoves
                     then (True, endGame (if inCheck then Checkmate else Stalemate) g2)
                     else (False, g2)))"

definition checkGameEnd :: "ChessGame \<Rightarrow> bool \<times> ChessGame" where
  "checkGameEnd g =
     (if moveCountWhite g \<ge> maxMoves g \<and> moveCountBlack g \<ge> maxMoves g
      then (True, endGame MoveLimitReached g)
      else (False, g))"

text \<open>
  \<open>endPlayerTurn\<close> and \<open>endAITurn\<close> have the same statements on the fields modelled
  here; the first one also schedules the engine's move, which is outside the model, as
  the rendering is.
\<close>

definition endPlayerTurn :: "ChessGame \<Rightarrow> ChessGame" where
  "endPlayerTurn g =
     (let g1 = (if currentPlayer g = White then g\<lparr>moveCountWhite := moveCountWhite g + 1\<rparr>
                else g\<lparr>moveCountBlack := moveCountBlack g + 1\<rparr>)
      in case checkGameEndEarly g1 of
           (endedEarly, g2) \<Rightarrow>
             if endedEarly then g2
             else
               (let g3 = g2\<lparr>currentPlayer := (if currentPlayer g2 = White then Black else White)\<rparr>;
                    g4 = (if currentPlayer g3 = White
                          then g3\<lparr>fullmoveNumber := map_option (\<lambda>n. n + 1) (fullmoveNumber g3)\<rparr>
                          else g3)
                in snd (checkGameEnd (syncFENFromState g4))))"

definition endAITurn :: "ChessGame \<Rightarrow> ChessGame" where
  "endAITurn g =
     (let g1 = (if currentPlayer g = White then g\<lparr>moveCountWhite := moveCountWhite g + 1\<rparr>
                else g\<lparr>moveCountBlack := moveCountBlack g + 1\<rparr>)
      in case checkGameEndEarly g1 of
           (endedEarly, g2) \<Rightarrow>
             if endedEarly then g2
             else
               (let g3 = g2\<lparr>currentPlayer := (if currentPlayer g2 = White then Black else White)\<rparr>;
                    g4 = (if currentPlayer g3 = White
                          then g3\<lparr>fullmoveNumber := map_option (\<lambda>n. n + 1) (fullmoveNumber g3)\<rparr>
                          else g3)
                in snd (checkGameEnd (syncFENFromState g4))))"

text \<open>
  \<open>startGame\<close>, with \<open>this.firstMove\<close> as its argument: nothing happens unless both kings
  are on the board.
\<close>

definition startGame :: "color \<Rightarrow> ChessGame \<Rightarrow> ChessGame" where
  "startGame firstMove g =
     (let flatBoard = concat (board g)
      in if \<not> (Some (CHR ''K'') \<in> set flatBoard \<and> Some (CHR ''k'') \<in> set flatBoard) then g
         else syncFENFromState
                (g\<lparr>currentPlayer := firstMove, moveCountWhite := 0, moveCountBlack := 0,
                   scoreWhite := 0, scoreBlack := 0, gameActive := True, gameResult := None,
                   currentPhase := 3\<rparr>))"

section \<open>The specification's reading of a malformed FEN\<close>

text \<open>
  The number of squares a row of the placement stands for: a digit counts for its value,
  any other character for one square.
\<close>

definition squaresOf :: "string \<Rightarrow> nat" where
  "squaresOf row = sum_list (map (\<lambda>c. if isDigit c then digitVal c else 1) row)"

text \<open>
  The malformations the specification lists for the decoder, in its words: the placement
  does not split into exactly 8 rows; a row's expanded square count is not 8; a character
  is not one of the 12 piece letters or a digit 1 to 8; the side is not exactly \<open>w\<close> or
  \<open>b\<close>; the castling field is not \<open>-\<close> or a subset of \<open>KQkq\<close> in any order; the
  en-passant field is not \<open>-\<close> or a valid algebraic square.
\<close>

definition listedMalformation :: "string \<Rightarrow> bool" where
  "listedMalformation fen =
     (let parts = splitOn (CHR '' '') fen;
          rows = splitOn (CHR ''/'') (parts ! 0);
          side = (if 1 < length parts then parts ! 1 else []);
          castling = (if 2 < length parts then parts ! 2 else []);
          ep = (if 3 < length parts then parts ! 3 else [])
      in length rows \<noteq> 8
         \<or> list_ex (\<lambda>row. squaresOf row \<noteq> 8) rows
         \<or> list_ex (\<lambda>c. \<not> (isPieceLetter c \<or> c \<in> set ''12345678'')) (concat rows)
         \<or> \<not> (side = ''w'' \<or> side = ''b'')
         \<or> \<not> (castling = ''-''
                \<or> (distinct castling \<and> set castling \<subseteq> set ''KQkq''))
         \<or> \<not> (ep = ''-''
                \<or> (length ep = 2 \<and> ep ! 0 \<in> set ''abcdefgh'' \<and> ep ! 1 \<in> set ''12345678'')))"

section \<open>Positions and squares for the examples\<close>

text \<open>
  A fresh object that has loaded a FEN with \<open>setPositionFromFEN\<close>, and a square by its
  name, as \<open>executeAIMove\<close> reads the squares of an engine move.
\<close>

definition positionFromFEN :: "string \<Rightarrow> ChessGame" where
  "positionFromFEN fen =
     (case setPositionFromFEN fen newChessGame of Inr g \<Rightarrow> g | Inl e \<Rightarrow> newChessGame)"

definition squareNamed :: "string \<Rightarrow> square" where
  "squareNamed a = (case algebraicToCoords a of Some s \<Rightarrow> s | None \<Rightarrow> \<lparr>sqrank = 0, sqfile = 0\<rparr>)"

definition startPosition :: ChessGame where
  "startPosition = positionFromFEN ''rnbqkbnr/pppppppp/8/8/8/8/PPPPPPPP/RNBQKBNR w KQkq - 0 1''"

text \<open>
  Four scenes. A white bishop on e2 shields its king on e1 from a rook on e8; the same
  scene once the bishop has gone to d3; White about to castle king-side while a rook on
  f8 commands f1; and a black king on h1 walled in by its own pawns on g1, g2 and h2,
  with the white king on a1.
\<close>

definition pinnedBishop :: ChessGame where
  "pinnedBishop = startGame White (positionFromFEN ''k3r3/8/8/8/8/8/4B3/4K3 w - - 0 1'')"

definition bishopLeavesFile :: move where
  "bishopLeavesFile =
     \<lparr>from_sq = squareNamed ''e2'', to_sq = squareNamed ''d3'', mpiece = Some CHR ''B'',
      capturedPiece = None, promotion = None, isEnPassant = False, isCastling = False\<rparr>"

definition openFile :: ChessGame where
  "openFile = positionFromFEN ''k3r3/8/8/8/8/3B4/8/4K3 w - - 0 1''"

definition castleThroughCheck :: ChessGame where
  "castleThroughCheck = positionFromFEN ''k4r2/8/8/8/8/8/8/4K2R w K - 0 1''"

definition walledKing :: ChessGame where
  "walledKing = startGame White (positionFromFEN ''8/8/8/8/8/8/6pp/K5pk w - - 0 1'')"

definition kingStep :: move where
  "kingStep =
     \<lparr>from_sq = squareNamed ''a1'', to_sq = squareNamed ''a2'', mpiece = Some CHR ''K'',
      capturedPiece = None, promotion = None, isEnPassant = False, isCastling = False\<rparr>"

text \<open>The running game after the bishop has moved, and after the white king has.\<close>

definition afterBishopMove :: ChessGame where
  "afterBishopMove =
     (positionFromFEN ''k3r3/8/8/8/8/3B4/8/4K3 b - - 1 1'')
       \<lparr>moveCountWhite := 1, gameActive := True, currentPhase := 3\<rparr>"

definition afterKingStep :: ChessGame where
  "afterKingStep =
     (positionFromFEN ''8/8/8/8/8/8/K5pp/6pk b - - 1 1'')
       \<lparr>moveCountWhite := 1, gameActive := True, currentPhase := 3\<rparr>"

definition legalityOf :: "shape \<Rightarrow> legality" where
  "legalityOf sh =
     \<lparr>okEnPassant = sh_enPassant sh, okCastling = (sh_castleStep sh \<noteq> None),
      okPromotion = sh_promotion sh\<rparr>"


section \<open>Properties of the embedding\<close>

subsection \<open>The turn guard inside the attack oracle\<close>

text \<open>
  \<open>isSquareAttacked(square, color)\<close> enumerates the moves of the other side with the
  full checker, whose fourth guard refuses every piece that is not of the side to move.
  So the oracle answers \<open>false\<close> whenever \<open>color\<close> is the side to move, and that is how
  the checker calls it: the three castling queries and the query after the simulated
  move never reject, and the checker accepts exactly the moves that pass \<open>moveShape\<close>.
\<close>

lemma moveShape_not_turn:
  "colorOf p \<noteq> currentPlayer g \<Longrightarrow> \<exists>r. moveShape g frm to (Some p) promotionChar = Inl r"
  by (simp add: moveShape_def Let_def)

lemma isLegalMoveWithState_not_turn:
  assumes "colorOf p \<noteq> currentPlayer g"
  shows "\<exists>r. isLegalMoveWithState frm to (Some p) promotionChar g = (Inl r, g)"
proof -
  obtain r where "moveShape g frm to (Some p) promotionChar = Inl r"
    using moveShape_not_turn[OF assms] by blast
  then show ?thesis by (simp add: isLegalMoveWithState.simps)
qed

lemma genToLoop_not_turn:
  "colorOf p \<noteq> currentPlayer g \<Longrightarrow> genToLoop frm p tos moves g = (moves, g)"
proof (induction tos)
  case Nil
  show ?case by (simp add: genToLoop.simps)
next
  case (Cons to rest)
  obtain r where "isLegalMoveWithState frm to (Some p) None g = (Inl r, g)"
    using isLegalMoveWithState_not_turn[OF Cons.prems] by blast
  then show ?case using Cons by (subst genToLoop.simps) simp
qed

lemma genFromLoop_not_turn:
  "player \<noteq> currentPlayer g \<Longrightarrow> genFromLoop player froms moves g = (moves, g)"
proof (induction froms)
  case Nil
  show ?case by (simp add: genFromLoop.simps)
next
  case (Cons frm rest)
  show ?case
  proof (cases "cell (board g) (sqrank frm) (sqfile frm)")
    case None
    then show ?thesis using Cons by (subst genFromLoop.simps) simp
  next
    case (Some p)
    show ?thesis
    proof (cases "isPieceOwnedByPlayer p player")
      case False
      then show ?thesis using Cons Some by (subst genFromLoop.simps) simp
    next
      case True
      then have "colorOf p \<noteq> currentPlayer g" using Cons.prems owned_colorOf by blast
      then have "genToLoop frm p allSquares moves g = (moves, g)" by (rule genToLoop_not_turn)
      then show ?thesis using Cons Some True by (subst genFromLoop.simps) simp
    qed
  qed
qed

lemma generateAllPseudoLegalMoves_not_turn:
  "player \<noteq> currentPlayer g \<Longrightarrow> generateAllPseudoLegalMoves player opts g = ([], g)"
  by (simp add: generateAllPseudoLegalMoves.simps genFromLoop_not_turn)

lemma isSquareAttacked_own_turn:
  "color = currentPlayer g \<Longrightarrow> isSquareAttacked square color g = (False, g)"
  by (cases color) (simp_all add: isSquareAttacked.simps generateAllPseudoLegalMoves_not_turn)

lemma isKingInCheck_own_turn:
  "color = currentPlayer g \<Longrightarrow> isKingInCheck color g = (False, g)"
  by (simp add: isKingInCheck.simps isSquareAttacked_own_turn Let_def split: option.splits)

lemma isLegalMoveWithState_moveShape:
  "isLegalMoveWithState frm to piece promotionChar g =
     (case moveShape g frm to piece promotionChar of
        Inl r \<Rightarrow> (Inl r, g)
      | Inr sh \<Rightarrow> (Inr (legalityOf sh), g))"
proof (cases "moveShape g frm to piece promotionChar")
  case (Inl r)
  then show ?thesis by (simp add: isLegalMoveWithState.simps)
next
  case (Inr sh)
  have c: "sh_color sh = currentPlayer g" using moveShape_Inr(2)[OF Inr] .
  have a: "\<And>sq. isSquareAttacked sq (sh_color sh) g = (False, g)"
    using c by (simp add: isSquareAttacked_own_turn)
  have k: "\<And>m. isKingInCheck (sh_color sh) (applyMoveToState m True g)
             = (False, applyMoveToState m True g)"
    using c by (simp add: isKingInCheck_own_turn applyMoveToState_currentPlayer)
  show ?thesis
    using Inr
    by (simp add: isLegalMoveWithState.simps a k restore_after_simulation legalityOf_def
        split: option.splits)
qed


text \<open>The last equation is the one the examples below are evaluated with.\<close>

declare isLegalMoveWithState_moveShape [code]

subsection \<open>Board cells\<close>

lemma wfBoard_row: "wfBoard b \<Longrightarrow> 0 \<le> r \<Longrightarrow> r < 8 \<Longrightarrow> length (b ! nat r) = 8"
  by (auto simp: wfBoard_def list_all_length)

lemma cell_setCell:
  assumes "wfBoard b" "0 \<le> r" "r < 8" "0 \<le> f" "f < 8"
  shows "cell (setCell b r f v) r' f' = (if r' = r \<and> f' = f then v else cell b r' f')"
proof -
  have len: "length b = 8" using assms(1) by (simp add: wfBoard_def)
  have row: "length (b ! nat r) = 8" using wfBoard_row[OF assms(1-3)] .
  show ?thesis
    using assms(2-5) len row
    by (auto simp: cell_def setCell_def jsSet_def nth_list_update nat_eq_iff)
qed

lemma wfBoard_setCell:
  assumes "wfBoard b" "0 \<le> f" "f < 8"
  shows "wfBoard (setCell b r f v)"
proof (cases "0 \<le> r \<and> r < 8")
  case False
  then show ?thesis using assms by (auto simp: setCell_def wfBoard_def)
next
  case True
  then have row: "length (b ! nat r) = 8" using wfBoard_row[OF assms(1)] by simp
  show ?thesis
    using assms True row
    by (auto simp: setCell_def wfBoard_def jsSet_def list_all_length nth_list_update)
qed

lemma updateCR_flags:
  "right_K (updateCR p r f cr) = (right_K cr \<and> p \<noteq> Some CHR ''K'' \<and> \<not> (p = Some CHR ''R'' \<and> r = 7 \<and> f = 7))"
  "right_Q (updateCR p r f cr) = (right_Q cr \<and> p \<noteq> Some CHR ''K'' \<and> \<not> (p = Some CHR ''R'' \<and> r = 7 \<and> f = 0))"
  "right_k (updateCR p r f cr) = (right_k cr \<and> p \<noteq> Some CHR ''k'' \<and> \<not> (p = Some CHR ''r'' \<and> r = 0 \<and> f = 7))"
  "right_q (updateCR p r f cr) = (right_q cr \<and> p \<noteq> Some CHR ''k'' \<and> \<not> (p = Some CHR ''r'' \<and> r = 0 \<and> f = 0))"
  by (auto simp: updateCR_def Let_def split: option.splits)

lemma fields_after_sync_and_score:
  "board (updateScoreOnCapture a v (syncFENFromState g)) = board g"
  "castlingRights (updateScoreOnCapture a v (syncFENFromState g)) = castlingRights g"
  "enPassantTarget (updateScoreOnCapture a v (syncFENFromState g)) = enPassantTarget g"
  "halfmoveClock (updateScoreOnCapture a v (syncFENFromState g)) = halfmoveClock g"
  by (simp_all add: syncFENFromState_def updateScoreOnCapture_def Let_def split: option.splits)

lemma castlingRights_applyMoveToState:
  "mpiece m = Some p \<Longrightarrow>
   castlingRights (applyMoveToState m simulate g) =
     updateCR (capturedPiece m) (sqrank (to_sq m)) (sqfile (to_sq m))
       (updateCR (Some p) (sqrank (from_sq m)) (sqfile (from_sq m)) (castlingRights g))"
  by (cases simulate) (simp_all add: applyMoveToState_def Let_def fields_after_sync_and_score)

subsection \<open>Digits and square names\<close>

lemma digit_table:
  "list_all (\<lambda>n. isDigit (digitChar n) \<and> digitVal (digitChar n) = n) [0..<10]"
  by code_simp

lemma digitChar_props:
  assumes "n < 10"
  shows "isDigit (digitChar n)" and "digitVal (digitChar n) = n"
  using digit_table assms by (auto simp: list_all_iff)

lemma digitsOf_nonempty: "digitsOf n \<noteq> []"
  by (subst digitsOf.simps) simp

lemma numToString_nonempty: "numToString i \<noteq> []"
  by (simp add: numToString_def digitsOf_nonempty)

lemma coordsToAlgebraic_not_dash: "coordsToAlgebraic s \<noteq> ''-''"
  by (simp add: coordsToAlgebraic_def numToString_nonempty)

lemma file_letter_roundtrip:
  "0 \<le> f \<Longrightarrow> f < 8 \<Longrightarrow> (of_char (char_of (97 + f) :: char) :: int) - 97 = f"
  by simp

lemma algebraic_roundtrip:
  assumes "onBoard s"
  shows "algebraicToCoords (coordsToAlgebraic s) = Some s"
proof -
  have r: "0 \<le> sqrank s" "sqrank s < 8" and f: "0 \<le> sqfile s" "sqfile s < 8"
    using assms by (auto simp: onBoard_def)
  have n: "nat (8 - sqrank s) < 10" using r by simp
  have d: "numToString (8 - sqrank s) = [digitChar (nat (8 - sqrank s))]"
    using r n by (simp add: numToString_def digitsOf.simps)
  show ?thesis
    using r digitChar_props[OF n] file_letter_roundtrip[OF f]
    by (simp add: algebraicToCoords_def coordsToAlgebraic_def d)
qed

lemma enPassantTarget_applyMoveToState:
  "mpiece m = Some p \<Longrightarrow>
   enPassantTarget (applyMoveToState m simulate g) =
     (if toLowerCase p = CHR ''p'' \<and> \<bar>sqrank (to_sq m) - sqrank (from_sq m)\<bar> = 2
      then coordsToAlgebraic
             \<lparr>sqrank = (sqrank (to_sq m) + sqrank (from_sq m)) div 2, sqfile = sqfile (from_sq m)\<rparr>
      else ''-'')"
  by (cases simulate) (simp_all add: applyMoveToState_def Let_def fields_after_sync_and_score)

lemma board_applyMoveToState:
  "mpiece m = Some p \<Longrightarrow> board (applyMoveToState m simulate g) = boardAfterMove m p (board g)"
  by (cases simulate) (simp_all add: applyMoveToState_def Let_def fields_after_sync_and_score)

lemma boardAfterMove_enPassant:
  assumes ep: "isEnPassant m" and nc: "\<not> isCastling m" and wf: "wfBoard b"
    and frm: "onBoard (from_sq m)" and to: "onBoard (to_sq m)"
    and vr: "vr = sqrank (to_sq m) + (if colorOf p = White then 1 else - 1)"
    and vb: "0 \<le> vr" "vr < 8"
  shows "cell (boardAfterMove m p b) r f =
           (if r = sqrank (from_sq m) \<and> f = sqfile (from_sq m) then
              (if r = sqrank (to_sq m) \<and> f = sqfile (to_sq m) then promotion m else None)
            else if r = sqrank (to_sq m) \<and> f = sqfile (to_sq m)
              then Some (case promotion m of Some pr \<Rightarrow> pr | None \<Rightarrow> p)
            else if r = vr \<and> f = sqfile (to_sq m) then None
            else cell b r f)"
proof -
  let ?b2 = "setCell b vr (sqfile (to_sq m)) None"
  let ?b3 = "setCell ?b2 (sqrank (to_sq m)) (sqfile (to_sq m)) (Some p)"
  let ?b4 = "setCell ?b3 (sqrank (from_sq m)) (sqfile (from_sq m)) None"
  have r: "0 \<le> sqrank (to_sq m)" "sqrank (to_sq m) < 8" "0 \<le> sqfile (to_sq m)" "sqfile (to_sq m) < 8"
    "0 \<le> sqrank (from_sq m)" "sqrank (from_sq m) < 8" "0 \<le> sqfile (from_sq m)" "sqfile (from_sq m) < 8"
    using frm to by (auto simp: onBoard_def)
  have wf2: "wfBoard ?b2" using wf r by (simp add: wfBoard_setCell)
  have wf3: "wfBoard ?b3" using wf2 r by (simp add: wfBoard_setCell)
  have wf4: "wfBoard ?b4" using wf3 r by (simp add: wfBoard_setCell)
  have bam: "boardAfterMove m p b =
      (case promotion m of Some pr \<Rightarrow> setCell ?b4 (sqrank (to_sq m)) (sqfile (to_sq m)) (Some pr) | None \<Rightarrow> ?b4)"
    unfolding vr using ep nc by (cases "colorOf p = White") (simp_all add: boardAfterMove_def Let_def)
  have ne: "vr \<noteq> sqrank (to_sq m)" using vr by simp
  have c2: "\<And>r f. cell ?b2 r f = (if r = vr \<and> f = sqfile (to_sq m) then None else cell b r f)"
    using cell_setCell[OF wf vb r(3,4)] by simp
  have c3: "\<And>r f. cell ?b3 r f =
      (if r = sqrank (to_sq m) \<and> f = sqfile (to_sq m) then Some p else cell ?b2 r f)"
    using cell_setCell[OF wf2 r(1-4)] by simp
  have c4: "\<And>r f. cell ?b4 r f =
      (if r = sqrank (from_sq m) \<and> f = sqfile (from_sq m) then None else cell ?b3 r f)"
    using cell_setCell[OF wf3 r(5-8)] by simp
  show ?thesis
  proof (cases "promotion m")
    case None
    have "cell (boardAfterMove m p b) r f = cell ?b4 r f"
      unfolding bam using None by simp
    then show ?thesis using None ne by (simp only: c4 c3 c2) auto
  next
    case (Some pr)
    have c5: "cell (setCell ?b4 (sqrank (to_sq m)) (sqfile (to_sq m)) (Some pr)) r f =
      (if r = sqrank (to_sq m) \<and> f = sqfile (to_sq m) then Some pr else cell ?b4 r f)"
      using cell_setCell[OF wf4 r(1-4)] by simp
    have "cell (boardAfterMove m p b) r f =
            cell (setCell ?b4 (sqrank (to_sq m)) (sqfile (to_sq m)) (Some pr)) r f"
      unfolding bam using Some by simp
    then show ?thesis using Some ne by (simp only: c5 c4 c3 c2) auto
  qed
qed



subsection \<open>The regular expressions of \<open>validateFEN\<close>\<close>

lemma matches_Zero [simp]: "matches Zero s = False"
  by (induction s) simp_all

lemma matches_One [simp]: "matches One s = (s = [])"
  by (cases s) simp_all

lemma matches_Class: "matches (Class cs) s = (\<exists>c. s = [c] \<and> c \<in> set cs)"
  by (cases s) auto

lemma matches_Alt: "matches (Alt r1 r2) s = (matches r1 s \<or> matches r2 s)"
  by (induction s arbitrary: r1 r2) simp_all

lemma matches_Seq:
  "matches (Seq r1 r2) s = (\<exists>u v. s = u @ v \<and> matches r1 u \<and> matches r2 v)"
proof (induction s arbitrary: r1)
  case Nil
  then show ?case by simp
next
  case (Cons c cs)
  have split: "(\<exists>u v. c # cs = u @ v \<and> matches r1 u \<and> matches r2 v) =
      ((nullable r1 \<and> matches r2 (c # cs))
       \<or> (\<exists>u' v. cs = u' @ v \<and> matches (deriv c r1) u' \<and> matches r2 v))"
    (is "?L = ?R")
  proof
    assume ?L
    then obtain u v where uv: "c # cs = u @ v" "matches r1 u" "matches r2 v" by blast
    show ?R
    proof (cases u)
      case Nil
      then show ?thesis using uv by simp
    next
      case (Cons a u')
      then show ?thesis using uv by auto
    qed
  next
    assume ?R
    then show ?L
    proof
      assume "nullable r1 \<and> matches r2 (c # cs)"
      then have "c # cs = [] @ (c # cs) \<and> matches r1 [] \<and> matches r2 (c # cs)" by simp
      then show ?L by blast
    next
      assume "\<exists>u' v. cs = u' @ v \<and> matches (deriv c r1) u' \<and> matches r2 v"
      then obtain u' v where "cs = u' @ v" "matches (deriv c r1) u'" "matches r2 v" by blast
      then have "c # cs = (c # u') @ v \<and> matches r1 (c # u') \<and> matches r2 v" by simp
      then show ?L by blast
    qed
  qed
  show ?case
    unfolding split using Cons.IH by (auto simp: matches_Alt)
qed

lemma matches_Opt: "matches (Opt r) s = (matches r s \<or> s = [])"
  by (simp add: Opt_def matches_Alt)

lemma matches_Star_Class:
  "matches (Star (Class cs)) s = list_all (\<lambda>c. c \<in> set cs) s"
proof (induction s)
  case Nil
  show ?case by simp
next
  case (Cons c s)
  show ?case using Cons.IH by (simp add: matches_Seq)
qed

lemma matches_Plus_Class:
  "matches (Plus (Class cs)) s = (s \<noteq> [] \<and> list_all (\<lambda>c. c \<in> set cs) s)"
  by (cases s) (auto simp: Plus_def matches_Seq matches_Star_Class matches_Class Cons_eq_append_conv)

lemma matches_Class_Class:
  "matches (Seq (Class a) (Class b)) s = (\<exists>f r. s = [f, r] \<and> f \<in> set a \<and> r \<in> set b)"
proof
  assume "matches (Seq (Class a) (Class b)) s"
  then show "\<exists>f r. s = [f, r] \<and> f \<in> set a \<and> r \<in> set b"
    by (auto simp: matches_Seq matches_Class)
next
  assume "\<exists>f r. s = [f, r] \<and> f \<in> set a \<and> r \<in> set b"
  then obtain f r where "s = [f] @ [r]" "f \<in> set a" "r \<in> set b" by auto
  then have "s = [f] @ [r] \<and> matches (Class a) [f] \<and> matches (Class b) [r]"
    by (simp add: matches_Class)
  then show "matches (Seq (Class a) (Class b)) s"
    unfolding matches_Seq by blast
qed

lemma matches_Seq_One: "matches (Seq One r) s = matches r s"
  by (simp add: matches_Seq)

lemma matches_Seq_Zero: "matches (Seq Zero r) s = False"
  by (simp add: matches_Seq)

lemma matches_Seq_Alt:
  "matches (Seq (Alt a b) r) s = (matches (Seq a r) s \<or> matches (Seq b r) s)"
  unfolding matches_Seq matches_Alt by blast

lemma subseq_Nil_iff: "subseq s [] = (s = [])"
  by (cases s) simp_all

lemma matches_Opt_letter_step:
  assumes "\<And>s. matches r s = subseq s ys"
  shows "matches (Seq (Opt (Class [k])) r) s = subseq s (k # ys)"
proof (cases s)
  case Nil
  have "nullable r" using assms[of "[]"] by simp
  then show ?thesis using Nil by (simp add: Opt_def)
next
  case (Cons c cs)
  have m: "matches (Seq (Opt (Class [k])) r) (c # cs) =
          ((c = k \<and> matches r cs) \<or> matches r (c # cs))"
    by (cases "c = k")
      (simp_all add: Opt_def matches_Alt matches_Seq_Alt matches_Seq_One matches_Seq_Zero)
  show ?thesis
  proof (cases "c = k")
    case True
    have "subseq (k # cs) ys \<Longrightarrow> subseq cs ys" by (rule subseq_Cons')
    then show ?thesis unfolding Cons m assms using True by auto
  next
    case False
    then show ?thesis unfolding Cons m assms by simp
  qed
qed

lemma matches_Opt_letter: "matches (Opt (Class [k])) s = subseq s [k]"
proof (cases s)
  case Nil
  then show ?thesis by (simp add: Opt_def)
next
  case (Cons c cs)
  then show ?thesis
    by (cases "c = k") (simp_all add: Opt_def matches_Alt subseq_Nil_iff)
qed

lemma matches_rxSide: "matches rxSide s = (s = ''w'' \<or> s = ''b'')"
  by (auto simp: rxSide_def matches_Class)

lemma isDigit_fun: "isDigit = (\<lambda>c. c \<in> set ''0123456789'')"
  by (rule ext) (rule isDigit_def)

lemma matches_rxNumber: "matches rxNumber s = (s \<noteq> [] \<and> list_all isDigit s)"
  by (simp only: rxNumber_def matches_Plus_Class isDigit_fun)

lemma matches_rxEnPassantSquare:
  "matches rxEnPassantSquare s =
     (s = ''-'' \<or> (\<exists>f r. s = [f, r] \<and> f \<in> set ''abcdefgh'' \<and> r \<in> set ''36''))"
proof -
  have "matches (Class ''-'') s = (s = ''-'')" by (auto simp: matches_Class)
  then show ?thesis by (simp only: rxEnPassantSquare_def matches_Alt matches_Class_Class)
qed

lemma matches_rxEnPassantFile:
  "matches rxEnPassantFile s = (s = ''-'' \<or> (\<exists>f. s = [f] \<and> f \<in> set ''abcdefgh''))"
proof -
  have "matches (Class ''-'') s = (s = ''-'')" by (auto simp: matches_Class)
  then show ?thesis by (simp only: rxEnPassantFile_def matches_Alt matches_Class)
qed

lemma matches_rxCastling: "matches rxCastling s = (s = ''-'' \<or> subseq s ''KQkq'')"
proof -
  have d: "matches (Class ''-'') s = (s = ''-'')" by (auto simp: matches_Class)
  have "matches (Seq (Opt (Class ''K'')) (Seq (Opt (Class ''Q'')) (Seq (Opt (Class ''k''))
          (Opt (Class ''q''))))) s = subseq s ''KQkq''"
    by (intro matches_Opt_letter_step matches_Opt_letter)
  then show ?thesis by (simp only: rxCastling_def matches_Alt d)
qed

lemma rowCount_eq:
  "rowCount row n =
     (if list_all (\<lambda>c. isDigit c \<or> isPieceLetter c) row then Some (n + squaresOf row) else None)"
  by (induction row arbitrary: n) (auto simp: squaresOf_def)

lemma rowCount_8:
  "(rowCount row 0 = Some 8) =
     (list_all (\<lambda>c. isDigit c \<or> isPieceLetter c) row \<and> squaresOf row = 8)"
  by (simp add: rowCount_eq)

lemma validateFEN_iff:
  assumes "parts = splitOn (CHR '' '') fen" and "rows = splitOn (CHR ''/'') (parts ! 0)"
  shows "validateFEN fen =
     (fen \<noteq> [] \<and> 4 \<le> length parts \<and> length rows = 8
      \<and> (\<forall>row \<in> set rows. (\<forall>c \<in> set row. isDigit c \<or> isPieceLetter c) \<and> squaresOf row = 8)
      \<and> (parts ! 1 = ''w'' \<or> parts ! 1 = ''b'')
      \<and> (parts ! 2 = ''-'' \<or> subseq (parts ! 2) ''KQkq'')
      \<and> (parts ! 3 = ''-''
          \<or> (\<exists>f r. parts ! 3 = [f, r] \<and> f \<in> set ''abcdefgh'' \<and> r \<in> set ''36'')
          \<or> (\<exists>f. parts ! 3 = [f] \<and> f \<in> set ''abcdefgh''))
      \<and> (4 < length parts \<longrightarrow> parts ! 4 = [] \<or> list_all isDigit (parts ! 4))
      \<and> (5 < length parts \<longrightarrow> parts ! 5 = [] \<or> list_all isDigit (parts ! 5)))"
proof -
  have rows_ok: "list_all (\<lambda>row. rowCount row 0 = Some 8) rows =
      (\<forall>row \<in> set rows. (\<forall>c \<in> set row. isDigit c \<or> isPieceLetter c) \<and> squaresOf row = 8)"
    by (simp add: rowCount_8 list_all_iff)
  show ?thesis
    unfolding validateFEN_def Let_def assms[symmetric] rows_ok
      matches_rxSide matches_rxCastling matches_rxEnPassantSquare matches_rxEnPassantFile
      matches_rxNumber
    by (simp only: not_less if_False if_True simp_thms split: if_splits) auto
qed

section \<open>The claims\<close>

text \<open>
  C7. A rejected move leaves the position as it was: when \<open>isLegalMoveWithState\<close> returns
  \<open>{ok: false}\<close>, for whatever reason, the object after the call is the object before
  it, in every field (board, side to move, castling rights, en-passant target, halfmove
  clock and fullmove number among them).
\<close>

theorem rejected_move_leaves_position:
  assumes "fst (isLegalMoveWithState frm to piece promotionChar g) = Inl r"
  shows "snd (isLegalMoveWithState frm to piece promotionChar g) = g"
  by (rule isLegalMoveWithState_frame)

theorem rejected_move_leaves_position_witness:
  "fst (isLegalMoveWithState (squareNamed ''a1'') (squareNamed ''a3'') (Some CHR ''R'') None
          startPosition) = Inl Blocked
   \<and> snd (isLegalMoveWithState (squareNamed ''a1'') (squareNamed ''a3'') (Some CHR ''R'') None
          startPosition) = startPosition"
proof -
  have h: "fst (isLegalMoveWithState (squareNamed ''a1'') (squareNamed ''a3'') (Some CHR ''R'') None
             startPosition) = Inl Blocked"
    by code_simp
  show ?thesis using h rejected_move_leaves_position[OF h] by simp
qed

text \<open>
  C10. \<open>generateAllLegalMoves(player)\<close> and
  \<open>generateAllPseudoLegalMoves(player, {includeKingSafety: false})\<close> return the same list:
  the option is never read, whatever it is.
\<close>

theorem legal_and_pseudo_legal_enumeration_agree:
  "generateAllLegalMoves player g = generateAllPseudoLegalMoves player (Some False) g
   \<and> generateAllPseudoLegalMoves player opts g = generateAllPseudoLegalMoves player (Some False) g"
  by (simp add: generateAllLegalMoves_def generateAllPseudoLegalMoves.simps)

text \<open>
  C9. Castling rights only decrease. After \<open>applyMoveToState\<close> no flag is set that was
  clear before, and a flag is still set exactly when it was set before, the moving piece
  is not the king of that colour nor the rook leaving the matching corner, and the
  captured piece is not the king of that colour nor a rook on the matching corner.
\<close>

theorem castling_rights_only_decrease:
  assumes "cr = castlingRights g" and "cr' = castlingRights (applyMoveToState m simulate g)"
    and "frm = from_sq m" and "to = to_sq m"
  shows "(right_K cr' \<longrightarrow> right_K cr) \<and> (right_Q cr' \<longrightarrow> right_Q cr)
       \<and> (right_k cr' \<longrightarrow> right_k cr) \<and> (right_q cr' \<longrightarrow> right_q cr)
       \<and> (mpiece m = Some p \<longrightarrow>
            right_K cr' =
              (right_K cr \<and> p \<noteq> CHR ''K'' \<and> \<not> (p = CHR ''R'' \<and> sqrank frm = 7 \<and> sqfile frm = 7)
               \<and> capturedPiece m \<noteq> Some CHR ''K''
               \<and> \<not> (capturedPiece m = Some CHR ''R'' \<and> sqrank to = 7 \<and> sqfile to = 7))
          \<and> right_Q cr' =
              (right_Q cr \<and> p \<noteq> CHR ''K'' \<and> \<not> (p = CHR ''R'' \<and> sqrank frm = 7 \<and> sqfile frm = 0)
               \<and> capturedPiece m \<noteq> Some CHR ''K''
               \<and> \<not> (capturedPiece m = Some CHR ''R'' \<and> sqrank to = 7 \<and> sqfile to = 0))
          \<and> right_k cr' =
              (right_k cr \<and> p \<noteq> CHR ''k'' \<and> \<not> (p = CHR ''r'' \<and> sqrank frm = 0 \<and> sqfile frm = 7)
               \<and> capturedPiece m \<noteq> Some CHR ''k''
               \<and> \<not> (capturedPiece m = Some CHR ''r'' \<and> sqrank to = 0 \<and> sqfile to = 7))
          \<and> right_q cr' =
              (right_q cr \<and> p \<noteq> CHR ''k'' \<and> \<not> (p = CHR ''r'' \<and> sqrank frm = 0 \<and> sqfile frm = 0)
               \<and> capturedPiece m \<noteq> Some CHR ''k''
               \<and> \<not> (capturedPiece m = Some CHR ''r'' \<and> sqrank to = 0 \<and> sqfile to = 0)))"
proof (cases "mpiece m")
  case None
  then show ?thesis using assms by (simp add: applyMoveToState_def)
next
  case (Some q)
  show ?thesis
    unfolding assms castlingRights_applyMoveToState[OF Some] updateCR_flags
    using Some by auto
qed


theorem castling_rights_only_decrease_witness:
  "castlingRights (applyMoveToState
       \<lparr>from_sq = squareNamed ''e1'', to_sq = squareNamed ''e2'', mpiece = Some CHR ''K'',
        capturedPiece = None, promotion = None, isEnPassant = False, isCastling = False\<rparr>
       True
       (positionFromFEN ''r3k2r/8/8/8/8/8/8/R3K2R w KQkq - 0 1''))
     = \<lparr>right_K = False, right_Q = False, right_k = True, right_q = True\<rparr>
   \<and> castlingRights (applyMoveToState
       \<lparr>from_sq = squareNamed ''a1'', to_sq = squareNamed ''a8'', mpiece = Some CHR ''R'',
        capturedPiece = Some CHR ''r'', promotion = None, isEnPassant = False, isCastling = False\<rparr>
       False
       (positionFromFEN ''r3k2r/8/8/8/8/8/8/R3K2R w KQkq - 0 1''))
     = \<lparr>right_K = True, right_Q = False, right_k = True, right_q = False\<rparr>"
proof -
  let ?g = "positionFromFEN ''r3k2r/8/8/8/8/8/8/R3K2R w KQkq - 0 1''"
  let ?m1 = "\<lparr>from_sq = squareNamed ''e1'', to_sq = squareNamed ''e2'', mpiece = Some CHR ''K'',
        capturedPiece = None, promotion = None, isEnPassant = False, isCastling = False\<rparr>"
  let ?m2 = "\<lparr>from_sq = squareNamed ''a1'', to_sq = squareNamed ''a8'', mpiece = Some CHR ''R'',
        capturedPiece = Some CHR ''r'', promotion = None, isEnPassant = False, isCastling = False\<rparr>"
  have g: "castlingRights ?g = \<lparr>right_K = True, right_Q = True, right_k = True, right_q = True\<rparr>"
    by code_simp
  have sq: "squareNamed ''e1'' = \<lparr>sqrank = 7, sqfile = 4\<rparr>" "squareNamed ''e2'' = \<lparr>sqrank = 6, sqfile = 4\<rparr>"
    "squareNamed ''a1'' = \<lparr>sqrank = 7, sqfile = 0\<rparr>" "squareNamed ''a8'' = \<lparr>sqrank = 0, sqfile = 0\<rparr>"
    by code_simp+
  have 1: "castlingRights (applyMoveToState ?m1 True ?g)
             = \<lparr>right_K = False, right_Q = False, right_k = True, right_q = True\<rparr>"
    using castling_rights_only_decrease[where m = ?m1 and p = "CHR ''K''" and simulate = True
        and g = ?g, OF refl refl refl refl]
    by (simp add: g sq)
  have 2: "castlingRights (applyMoveToState ?m2 False ?g)
             = \<lparr>right_K = True, right_Q = False, right_k = True, right_q = False\<rparr>"
    using castling_rights_only_decrease[where m = ?m2 and p = "CHR ''R''" and simulate = False
        and g = ?g, OF refl refl refl refl]
    by (simp add: g sq)
  show ?thesis using 1 2 by simp
qed

text \<open>
  C8. The en-passant target after \<open>applyMoveToState\<close> is the name of the square midway
  between origin and destination exactly when a pawn moved two ranks, and \<open>-\<close> after
  every other move (a square name is never \<open>-\<close>, and names the square it was made
  from). An en-passant capture empties the square behind the destination (on the file of
  the destination, one rank back for the mover), leaves the capturing pawn (or the piece
  it promotes to) on the destination, empties the origin, and changes no other square.
\<close>

theorem enPassant_lifecycle:
  assumes "mpiece m = Some p" and "frm = from_sq m" and "to = to_sq m"
    and "g' = applyMoveToState m simulate g"
    and "vr = sqrank to + (if colorOf p = White then 1 else - 1)"
  shows "enPassantTarget g' =
           (if toLowerCase p = CHR ''p'' \<and> \<bar>sqrank to - sqrank frm\<bar> = 2
            then coordsToAlgebraic \<lparr>sqrank = (sqrank to + sqrank frm) div 2, sqfile = sqfile frm\<rparr>
            else ''-'')
       \<and> coordsToAlgebraic sq \<noteq> ''-''
       \<and> (onBoard sq \<longrightarrow> algebraicToCoords (coordsToAlgebraic sq) = Some sq)
       \<and> (isEnPassant m \<and> \<not> isCastling m \<and> wfBoard (board g) \<and> onBoard frm \<and> onBoard to
            \<and> 0 \<le> vr \<and> vr < 8 \<and> \<not> (sqrank frm = sqrank to \<and> sqfile frm = sqfile to) \<longrightarrow>
            cell (board g') vr (sqfile to) = None
          \<and> cell (board g') (sqrank to) (sqfile to)
              = Some (case promotion m of Some pr \<Rightarrow> pr | None \<Rightarrow> p)
          \<and> cell (board g') (sqrank frm) (sqfile frm) = None
          \<and> (\<forall>r f. \<not> (r = sqrank frm \<and> f = sqfile frm) \<and> \<not> (r = sqrank to \<and> f = sqfile to)
                 \<and> \<not> (r = vr \<and> f = sqfile to)
                 \<longrightarrow> cell (board g') r f = cell (board g) r f))"
proof -
  have t: "enPassantTarget g' =
           (if toLowerCase p = CHR ''p'' \<and> \<bar>sqrank to - sqrank frm\<bar> = 2
            then coordsToAlgebraic \<lparr>sqrank = (sqrank to + sqrank frm) div 2, sqfile = sqfile frm\<rparr>
            else ''-'')"
    unfolding assms(2-4) by (rule enPassantTarget_applyMoveToState[OF assms(1)])
  have b: "board g' = boardAfterMove m p (board g)"
    unfolding assms(4) by (rule board_applyMoveToState[OF assms(1)])
  have c: "isEnPassant m \<Longrightarrow> \<not> isCastling m \<Longrightarrow> wfBoard (board g) \<Longrightarrow> onBoard frm \<Longrightarrow> onBoard to
      \<Longrightarrow> 0 \<le> vr \<Longrightarrow> vr < 8 \<Longrightarrow>
      cell (board g') r f =
           (if r = sqrank frm \<and> f = sqfile frm then
              (if r = sqrank to \<and> f = sqfile to then promotion m else None)
            else if r = sqrank to \<and> f = sqfile to
              then Some (case promotion m of Some pr \<Rightarrow> pr | None \<Rightarrow> p)
            else if r = vr \<and> f = sqfile to then None
            else cell (board g) r f)" for r f
    unfolding b assms(2,3)
    by (rule boardAfterMove_enPassant) (use assms(3,5) in simp_all)
  have v: "vr \<noteq> sqrank to" using assms(5) by simp
  show ?thesis
    using t v by (auto simp: c coordsToAlgebraic_not_dash algebraic_roundtrip)
qed

theorem enPassant_lifecycle_witness:
  "enPassantTarget (applyMoveToState
       \<lparr>from_sq = squareNamed ''e5'', to_sq = squareNamed ''d6'', mpiece = Some CHR ''P'',
        capturedPiece = None, promotion = None, isEnPassant = True, isCastling = False\<rparr>
       False
       (positionFromFEN ''rnbqkbnr/ppp1pppp/8/3pP3/8/8/PPPP1PPP/RNBQKBNR w KQkq d6 0 3'')) = ''-''
   \<and> cell (board (positionFromFEN ''rnbqkbnr/ppp1pppp/8/3pP3/8/8/PPPP1PPP/RNBQKBNR w KQkq d6 0 3''))
        3 3 = Some CHR ''p''
   \<and> cell (board (applyMoveToState
       \<lparr>from_sq = squareNamed ''e5'', to_sq = squareNamed ''d6'', mpiece = Some CHR ''P'',
        capturedPiece = None, promotion = None, isEnPassant = True, isCastling = False\<rparr>
       False
       (positionFromFEN ''rnbqkbnr/ppp1pppp/8/3pP3/8/8/PPPP1PPP/RNBQKBNR w KQkq d6 0 3''))) 3 3 = None
   \<and> cell (board (applyMoveToState
       \<lparr>from_sq = squareNamed ''e5'', to_sq = squareNamed ''d6'', mpiece = Some CHR ''P'',
        capturedPiece = None, promotion = None, isEnPassant = True, isCastling = False\<rparr>
       False
       (positionFromFEN ''rnbqkbnr/ppp1pppp/8/3pP3/8/8/PPPP1PPP/RNBQKBNR w KQkq d6 0 3''))) 2 3
       = Some CHR ''P''
   \<and> enPassantTarget (applyMoveToState
       \<lparr>from_sq = squareNamed ''e2'', to_sq = squareNamed ''e4'', mpiece = Some CHR ''P'',
        capturedPiece = None, promotion = None, isEnPassant = False, isCastling = False\<rparr>
       False startPosition) = ''e3''"
proof -
  let ?g = "positionFromFEN ''rnbqkbnr/ppp1pppp/8/3pP3/8/8/PPPP1PPP/RNBQKBNR w KQkq d6 0 3''"
  let ?m1 = "\<lparr>from_sq = squareNamed ''e5'', to_sq = squareNamed ''d6'', mpiece = Some CHR ''P'',
        capturedPiece = None, promotion = None, isEnPassant = True, isCastling = False\<rparr>"
  let ?m2 = "\<lparr>from_sq = squareNamed ''e2'', to_sq = squareNamed ''e4'', mpiece = Some CHR ''P'',
        capturedPiece = None, promotion = None, isEnPassant = False, isCastling = False\<rparr>"
  have sq: "squareNamed ''e5'' = \<lparr>sqrank = 3, sqfile = 4\<rparr>" "squareNamed ''d6'' = \<lparr>sqrank = 2, sqfile = 3\<rparr>"
    "squareNamed ''e2'' = \<lparr>sqrank = 6, sqfile = 4\<rparr>" "squareNamed ''e4'' = \<lparr>sqrank = 4, sqfile = 4\<rparr>"
    by code_simp+
  have wf: "wfBoard (board ?g)" by code_simp
  have d5: "cell (board ?g) 3 3 = Some CHR ''p''" by code_simp
  have P: "toLowerCase CHR ''P'' = CHR ''p''" "colorOf CHR ''P'' = White" by code_simp+
  have e3: "coordsToAlgebraic \<lparr>sqrank = 5, sqfile = 4\<rparr> = ''e3''" by code_simp
  note t1 = enPassant_lifecycle[where m = ?m1 and p = "CHR ''P''" and simulate = False
      and g = ?g, OF _ refl refl refl refl]
  note t2 = enPassant_lifecycle[where m = ?m2 and p = "CHR ''P''" and simulate = False
      and g = startPosition, OF _ refl refl refl refl]
  have 1: "enPassantTarget (applyMoveToState ?m1 False ?g) = ''-''
        \<and> cell (board (applyMoveToState ?m1 False ?g)) 3 3 = None
        \<and> cell (board (applyMoveToState ?m1 False ?g)) 2 3 = Some CHR ''P''"
    using t1 by (simp add: sq wf P onBoard_def)
  have 2: "enPassantTarget (applyMoveToState ?m2 False startPosition) = ''e3''"
    using t2 by (simp add: sq P e3)
  show ?thesis using 1 2 d5 by simp
qed



text \<open>
  C1. The claim: a move the checker accepts never leaves the mover's king attacked. The
  code at the scene of the shielding bishop: \<open>e2d3\<close> is accepted; once it is played and
  the turn has passed (\<open>applyMoveToState\<close>, \<open>endPlayerTurn\<close>), the game stands at
  \<open>k3r3/8/8/8/8/3B4/8/4K3 b - - 1 1\<close>, where \<open>isKingInCheck\<close> answers \<open>true\<close> for White
  and the checker accepts the rook's capture of the king on e1.
\<close>

theorem accepted_move_exposes_king:
  "fst (isLegalMoveWithState (squareNamed ''e2'') (squareNamed ''d3'') (Some CHR ''B'') None
          pinnedBishop)
     = Inr \<lparr>okEnPassant = False, okCastling = False, okPromotion = None\<rparr>
   \<and> endPlayerTurn (applyMoveToState bishopLeavesFile False pinnedBishop) = afterBishopMove
   \<and> fst (isKingInCheck White afterBishopMove)
   \<and> fst (isLegalMoveWithState (squareNamed ''e8'') (squareNamed ''e1'') (Some CHR ''r'') None
          afterBishopMove)
     = Inr \<lparr>okEnPassant = False, okCastling = False, okPromotion = None\<rparr>"
  by code_simp

theorem accepted_move_exposes_king_witness:
  "\<exists>g frm to p m l.
     fst (isLegalMoveWithState frm to (Some p) None g) = Inr l
     \<and> mpiece m = Some p \<and> from_sq m = frm \<and> to_sq m = to
     \<and> fst (isKingInCheck (colorOf p) (endPlayerTurn (applyMoveToState m False g)))"
proof -
  have c: "colorOf CHR ''B'' = White" by code_simp
  have m: "mpiece bishopLeavesFile = Some CHR ''B''"
    "from_sq bishopLeavesFile = squareNamed ''e2''" "to_sq bishopLeavesFile = squareNamed ''d3''"
    by (simp_all add: bishopLeavesFile_def)
  show ?thesis
    using accepted_move_exposes_king c m by metis
qed

text \<open>
  C2. The claim: \<open>isSquareAttacked\<close> is true exactly when a piece of the attacking side
  reaches the square by the movement rules of its kind, whoever has the turn. The code
  at the scene of the open file: the rook on e8 passes the rules of its kind towards e1
  (\<open>pieceRules\<close>), yet the oracle answers \<open>false\<close> for e1 with White to move and \<open>true\<close>
  in the same position with Black to move.
\<close>

theorem attack_oracle_depends_on_turn:
  "cell (board openFile) 0 4 = Some CHR ''r''
   \<and> pieceRules openFile (squareNamed ''e8'') (squareNamed ''e1'') CHR ''r'' Black
        (Some CHR ''K'') None = Inr (False, None, None)
   \<and> fst (isSquareAttacked (squareNamed ''e1'') White openFile) = False
   \<and> fst (isSquareAttacked (squareNamed ''e1'') White (openFile\<lparr>currentPlayer := Black\<rparr>)) = True"
  by code_simp

theorem attack_oracle_depends_on_turn_witness:
  "\<exists>g square color.
     fst (isSquareAttacked square color g)
       \<noteq> fst (isSquareAttacked square color (g\<lparr>currentPlayer := Black\<rparr>))"
  using attack_oracle_depends_on_turn by metis

text \<open>
  C3. The claim: castling is refused when the king's square, the square it crosses or
  its destination is attacked. The code at the castling scene: the rook on f8 reaches f1
  by the rules of its kind, and the oracle says so once Black has the turn, yet \<open>e1g1\<close>
  is accepted as castling.
\<close>

theorem castling_through_attacked_square_accepted:
  "fst (isLegalMoveWithState (squareNamed ''e1'') (squareNamed ''g1'') (Some CHR ''K'') None
          castleThroughCheck)
     = Inr \<lparr>okEnPassant = False, okCastling = True, okPromotion = None\<rparr>
   \<and> pieceRules castleThroughCheck (squareNamed ''f8'') (squareNamed ''f1'') CHR ''r'' Black
        None None = Inr (False, None, None)
   \<and> fst (isSquareAttacked (squareNamed ''f1'') White
          (castleThroughCheck\<lparr>currentPlayer := Black\<rparr>)) = True"
  by code_simp

theorem castling_through_attacked_square_accepted_witness:
  "\<exists>g frm to l square.
     fst (isLegalMoveWithState frm to (Some CHR ''K'') None g) = Inr l \<and> okCastling l
     \<and> sqrank square = sqrank frm \<and> sqfile square = sqfile frm + 1
     \<and> fst (isSquareAttacked square White (g\<lparr>currentPlayer := Black\<rparr>))"
proof -
  have sq: "sqrank (squareNamed ''f1'') = sqrank (squareNamed ''e1'')"
    "sqfile (squareNamed ''f1'') = sqfile (squareNamed ''e1'') + 1"
    by code_simp+
  have l: "okCastling \<lparr>okEnPassant = False, okCastling = True, okPromotion = None\<rparr>" by simp
  show ?thesis
    using castling_through_attacked_square_accepted sq l by metis
qed

text \<open>
  C4. The claim: the game is declared ended when the side whose turn begins has no legal
  move. The code at the scene of the walled king: White plays \<open>a1a2\<close>; \<open>endPlayerTurn\<close>
  tests the side that has just moved, passes the turn to Black and leaves the game
  running at \<open>8/8/8/8/8/8/K5pp/6pk b - - 1 1\<close> with no result recorded, although Black
  has no legal move there.
\<close>

theorem no_end_declared_for_side_without_moves:
  "fst (isLegalMoveWithState (squareNamed ''a1'') (squareNamed ''a2'') (Some CHR ''K'') None
          walledKing)
     = Inr \<lparr>okEnPassant = False, okCastling = False, okPromotion = None\<rparr>
   \<and> endPlayerTurn (applyMoveToState kingStep False walledKing) = afterKingStep
   \<and> currentPlayer afterKingStep = Black
   \<and> gameActive afterKingStep
   \<and> gameResult afterKingStep = None
   \<and> fst (generateAllLegalMoves Black afterKingStep) = []"
  by code_simp

theorem no_end_declared_for_side_without_moves_witness:
  "\<exists>g. gameActive (endPlayerTurn g) \<and> gameResult (endPlayerTurn g) = None
       \<and> fst (generateAllLegalMoves (currentPlayer (endPlayerTurn g)) (endPlayerTurn g)) = []"
  using no_end_declared_for_side_without_moves by metis

text \<open>
  Claim C6, as the code has it. \<open>validateFEN\<close> does not fail exactly on the malformations
  the specification lists. It accepts a FEN exactly when: the text is not empty and has
  at least four fields separated by single spaces; the placement has exactly 8 rows, every
  character of a row is a digit 0 to 9 or one of the 12 piece letters, and every row
  counts 8 squares; the side is \<open>w\<close> or \<open>b\<close>; the castling field is \<open>-\<close> or what is left of
  \<open>KQkq\<close> after deleting letters (the order kept, the empty field included); the
  en-passant field is \<open>-\<close>, a file letter followed by 3 or 6, or a lone file letter; and
  the halfmove and fullmove fields, when present and not empty, are digits only.
\<close>

theorem validateFEN_accepts_exactly:
  assumes "parts = splitOn (CHR '' '') fen" and "rows = splitOn (CHR ''/'') (parts ! 0)"
  shows "validateFEN fen =
     (fen \<noteq> [] \<and> 4 \<le> length parts \<and> length rows = 8
      \<and> (\<forall>row \<in> set rows. (\<forall>c \<in> set row. isDigit c \<or> isPieceLetter c) \<and> squaresOf row = 8)
      \<and> (parts ! 1 = ''w'' \<or> parts ! 1 = ''b'')
      \<and> (parts ! 2 = ''-'' \<or> subseq (parts ! 2) ''KQkq'')
      \<and> (parts ! 3 = ''-''
          \<or> (\<exists>f r. parts ! 3 = [f, r] \<and> f \<in> set ''abcdefgh'' \<and> r \<in> set ''36'')
          \<or> (\<exists>f. parts ! 3 = [f] \<and> f \<in> set ''abcdefgh''))
      \<and> (4 < length parts \<longrightarrow> parts ! 4 = [] \<or> list_all isDigit (parts ! 4))
      \<and> (5 < length parts \<longrightarrow> parts ! 5 = [] \<or> list_all isDigit (parts ! 5)))"
  using assms by (rule validateFEN_iff)

theorem validateFEN_accepts_exactly_witness:
  "validateFEN ''rnbqkbnr/pppppppp/8/8/8/8/PPPPPPPP/RNBQKBNR w KQkq e 0 1''"
proof -
  have p: "[''rnbqkbnr/pppppppp/8/8/8/8/PPPPPPPP/RNBQKBNR'', ''w'', ''KQkq'', ''e'', ''0'', ''1'']
           = splitOn (CHR '' '') ''rnbqkbnr/pppppppp/8/8/8/8/PPPPPPPP/RNBQKBNR w KQkq e 0 1''"
    by code_simp
  have r: "[''rnbqkbnr'', ''pppppppp'', ''8'', ''8'', ''8'', ''8'', ''PPPPPPPP'', ''RNBQKBNR'']
           = splitOn (CHR ''/'')
               ([''rnbqkbnr/pppppppp/8/8/8/8/PPPPPPPP/RNBQKBNR'', ''w'', ''KQkq'', ''e'', ''0'', ''1''] ! 0)"
    by code_simp
  have rows: "\<forall>row \<in> set [''rnbqkbnr'', ''pppppppp'', ''8'', ''8'', ''8'', ''8'', ''PPPPPPPP'', ''RNBQKBNR''].
                (\<forall>c \<in> set row. isDigit c \<or> isPieceLetter c) \<and> squaresOf row = 8"
    by code_simp
  have digits: "list_all isDigit ''0''" "list_all isDigit ''1''"
    by code_simp+
  show ?thesis
    unfolding validateFEN_accepts_exactly [OF p r]
    using rows digits by simp
qed

text \<open>
  The counterexample to C6 as stated: the start position with the castling letters in the
  order \<open>QKqk\<close> shows none of the listed malformations, and \<open>validateFEN\<close> rejects it.
\<close>

theorem validateFEN_counterexample:
  "\<not> listedMalformation ''rnbqkbnr/pppppppp/8/8/8/8/PPPPPPPP/RNBQKBNR w QKqk - 0 1''
   \<and> validateFEN ''rnbqkbnr/pppppppp/8/8/8/8/PPPPPPPP/RNBQKBNR w QKqk - 0 1'' = False"
  by code_simp

end
